theory Spec2Isabelle
  imports Complex_Main
begin

section \<open>Strings and big integers of the host language\<close>

text \<open>
  Strings are lists of characters; the inputs considered are ASCII, one character per
  code unit. An exception is represented by the message it carries: the handlers only
  ever read \<open>error.message\<close> (or \<open>String(error)\<close>) of what they catch.
\<close>

type_synonym exn = string

text \<open>\<open>s.padStart(n, c)\<close>: pads on the left up to length \<open>n\<close>, never truncates.\<close>

definition padStart :: "nat \<Rightarrow> char \<Rightarrow> string \<Rightarrow> string" where
  "padStart n c s = replicate (n - length s) c @ s"

text \<open>\<open>s.slice(k)\<close> for a non-negative index \<open>k\<close>.\<close>

definition slice :: "nat \<Rightarrow> string \<Rightarrow> string" where
  "slice k s = drop k s"

definition hexDigit :: "nat \<Rightarrow> char" where
  "hexDigit d = ''0123456789abcdef'' ! d"

text \<open>The digits of a natural number in base 16, most significant first, lower case.\<close>

fun toHex :: "nat \<Rightarrow> string" where
  "toHex n = (if n < 16 then [hexDigit n] else toHex (n div 16) @ [hexDigit (n mod 16)])"

declare toHex.simps [simp del]

text \<open>\<open>BigInt.prototype.toString(16)\<close>: a minus sign followed by the magnitude.\<close>

definition toString16 :: "int \<Rightarrow> string" where
  "toString16 v = (if v < 0 then CHR ''-'' # toHex (nat (- v)) else toHex (nat v))"

text \<open>The value of one digit character, for bases up to 16 (upper or lower case).\<close>

definition digitVal :: "char \<Rightarrow> nat option" where
  "digitVal c =
     (if c \<in> set ''0123456789'' then Some (of_char c - 48)
      else if c \<in> set ''abcdef'' then Some (of_char c - 87)
      else if c \<in> set ''ABCDEF'' then Some (of_char c - 55)
      else None)"

definition isDigitOf :: "nat \<Rightarrow> char \<Rightarrow> bool" where
  "isDigitOf base c = (case digitVal c of None \<Rightarrow> False | Some d \<Rightarrow> d < base)"

text \<open>The number denoted by a digit string, most significant digit first.\<close>

definition digitsValue :: "nat \<Rightarrow> string \<Rightarrow> nat" where
  "digitsValue base s =
     foldl (\<lambda>acc c. acc * base + (case digitVal c of None \<Rightarrow> 0 | Some d \<Rightarrow> d)) 0 s"

definition parseDigits :: "nat \<Rightarrow> string \<Rightarrow> nat option" where
  "parseDigits base s =
     (if s \<noteq> [] \<and> list_all (isDigitOf base) s then Some (digitsValue base s) else None)"

definition isWhiteSpace :: "char \<Rightarrow> bool" where
  "isWhiteSpace c = (of_char c \<in> set [9, 10, 11, 12, 13, 32 :: nat])"

definition trim :: "string \<Rightarrow> string" where
  "trim s = rev (dropWhile isWhiteSpace (rev (dropWhile isWhiteSpace s)))"

text \<open>
  The conversion that \<open>BigInt(string)\<close> performs: surrounding white space is dropped,
  the empty string is zero, a decimal literal may carry a sign, and the prefixes
  \<open>0x\<close>, \<open>0o\<close>, \<open>0b\<close> (either case, unsigned) select another base.
\<close>

definition StringToBigInt :: "string \<Rightarrow> int option" where
  "StringToBigInt s =
     (let t = trim s in
      if t = [] then Some 0
      else if take 2 t \<in> set [''0x'', ''0X''] then map_option int (parseDigits 16 (drop 2 t))
      else if take 2 t \<in> set [''0o'', ''0O''] then map_option int (parseDigits 8 (drop 2 t))
      else if take 2 t \<in> set [''0b'', ''0B''] then map_option int (parseDigits 2 (drop 2 t))
      else if hd t = CHR ''-'' then map_option (\<lambda>n. - int n) (parseDigits 10 (tl t))
      else if hd t = CHR ''+'' then map_option int (parseDigits 10 (tl t))
      else map_option int (parseDigits 10 t))"

text \<open>\<open>BigInt(s)\<close> throws a SyntaxError when the string is no integer literal.\<close>

definition BigInt :: "string \<Rightarrow> exn + int" where
  "BigInt s =
     (case StringToBigInt s of
        None \<Rightarrow> Inl (''Cannot convert '' @ s @ '' to a BigInt'')
      | Some v \<Rightarrow> Inr v)"

text \<open>
  Truthiness of an optional string parameter: \<open>undefined\<close> and the empty string are
  both falsy, so \<open>!amount\<close> holds for either.
\<close>

definition truthy :: "string option \<Rightarrow> bool" where
  "truthy p = (case p of None \<Rightarrow> False | Some s \<Rightarrow> s \<noteq> [])"

section \<open>The staking tool \<open>apriori-mon-stake\<close>\<close>

datatype operation = Deposit | Unstake | Redeem

text \<open>The operation as the input schema spells it.\<close>

fun operationStr :: "operation \<Rightarrow> string" where
  "operationStr Deposit = ''deposit''"
| "operationStr Unstake = ''unstake''"
| "operationStr Redeem = ''redeem''"

definition contractAddress :: string where
  "contractAddress = ''0xb2f82D0f38dc453D596Ad40A37799446Cc89274A''"

definition EXPLORER_URL :: string where
  "EXPLORER_URL = ''https://testnet.monadexplorer.com/tx/''"

definition gasLimitStake :: int where "gasLimitStake = 500000"
definition gasLimitUnstake :: int where "gasLimitUnstake = 800000"
definition gasLimitClaim :: int where "gasLimitClaim = 800000"

definition depositSelector :: string where "depositSelector = ''0x6e553f65''"
definition unstakeSelector :: string where "unstakeSelector = ''0x7d41c86e''"
definition redeemSelector :: string where "redeemSelector = ''0x492e47d2''"

text \<open>The argument of \<open>walletClient.sendTransaction\<close>.\<close>

record tx_request =
  rq_to :: string
  rq_data :: string
  rq_value :: int
  rq_gas :: int

text \<open>What the \<open>switch\<close> on the operation leaves in its local variables.\<close>

record stake_call =
  data :: string
  callValue :: int
  gasLimit :: int
  operationName :: string

text \<open>
  The \<open>switch\<close> statement. \<open>parseUnits\<close> is the unit conversion of the client
  library and \<open>senderAddress\<close> is \<open>senderAccount.address\<close>; both are parameters. A
  throw of \<open>parseUnits\<close> or \<open>BigInt\<close> leaves the \<open>switch\<close> with \<open>Inl\<close>. The
  branches for an absent parameter stand for the non-null assertions \<open>amount!\<close> and
  \<open>requestId!\<close>; the validation in front of the \<open>switch\<close> keeps them from running.
\<close>

definition buildCall ::
  "(string \<Rightarrow> nat \<Rightarrow> exn + int) \<Rightarrow> string \<Rightarrow> operation \<Rightarrow> string option \<Rightarrow> string option
     \<Rightarrow> exn + stake_call" where
  "buildCall parseUnits senderAddress operation amount requestId =
     (case operation of
        Deposit \<Rightarrow>
          (case amount of
             None \<Rightarrow> Inl ''TypeError''
           | Some a \<Rightarrow>
               (case parseUnits a 18 of
                  Inl e \<Rightarrow> Inl e
                | Inr depositValue \<Rightarrow>
                    (let depositAmountHex = padStart 64 CHR ''0'' (toString16 depositValue);
                         depositAddressHex = padStart 64 CHR ''0'' (slice 2 senderAddress)
                     in Inr \<lparr>data = depositSelector @ depositAmountHex @ depositAddressHex,
                             callValue = depositValue,
                             gasLimit = gasLimitStake,
                             operationName = ''Deposit''\<rparr>)))
      | Unstake \<Rightarrow>
          (case amount of
             None \<Rightarrow> Inl ''TypeError''
           | Some a \<Rightarrow>
               (case parseUnits a 18 of
                  Inl e \<Rightarrow> Inl e
                | Inr unstakeValue \<Rightarrow>
                    (let unstakeAmountHex = padStart 64 CHR ''0'' (toString16 unstakeValue);
                         unstakeAddressHex1 = padStart 64 CHR ''0'' (slice 2 senderAddress);
                         unstakeAddressHex2 = padStart 64 CHR ''0'' (slice 2 senderAddress)
                     in Inr \<lparr>data = unstakeSelector @ unstakeAmountHex @ unstakeAddressHex1
                                      @ unstakeAddressHex2,
                             callValue = 0,
                             gasLimit = gasLimitUnstake,
                             operationName = ''Unstake''\<rparr>)))
      | Redeem \<Rightarrow>
          (case requestId of
             None \<Rightarrow> Inl ''TypeError''
           | Some r \<Rightarrow>
               (let offsetHex = padStart 64 CHR ''0'' ''40'';
                    addressHex = padStart 64 CHR ''0'' (slice 2 senderAddress);
                    flagHex = padStart 64 CHR ''0'' ''01''
                in case BigInt r of
                     Inl e \<Rightarrow> Inl e
                   | Inr requestIdBigInt \<Rightarrow>
                       (let requestIdHex = padStart 64 CHR ''0'' (toString16 requestIdBigInt)
                        in Inr \<lparr>data = redeemSelector @ offsetHex @ addressHex @ flagHex
                                         @ requestIdHex,
                                callValue = 0,
                                gasLimit = gasLimitClaim,
                                operationName = ''Redeem''\<rparr>))))"

fun successMessage :: "operation \<Rightarrow> string option \<Rightarrow> string option \<Rightarrow> string" where
  "successMessage Deposit amount requestId = ''Deposited '' @ (case amount of None \<Rightarrow> ''undefined'' | Some a \<Rightarrow> a) @ '' MON''"
| "successMessage Unstake amount requestId = ''Unstaked '' @ (case amount of None \<Rightarrow> ''undefined'' | Some a \<Rightarrow> a) @ '' MON''"
| "successMessage Redeem amount requestId =
     ''Redeemed MON for request id '' @ (case requestId of None \<Rightarrow> ''undefined'' | Some r \<Rightarrow> r)"

text \<open>
  The handler. Its result is the text of the single content item it returns, together
  with the list of submissions it handed to the wallet client (at most one).
  \<open>sendTransaction\<close> is the wallet client: it answers with a transaction hash or throws.
\<close>

definition aprioriMonStake ::
  "(string \<Rightarrow> nat \<Rightarrow> exn + int) \<Rightarrow> (tx_request \<Rightarrow> exn + string) \<Rightarrow> string
     \<Rightarrow> operation \<Rightarrow> string option \<Rightarrow> string option \<Rightarrow> string \<times> tx_request list" where
  "aprioriMonStake parseUnits sendTransaction senderAddress operation amount requestId =
     (if (operation = Deposit \<or> operation = Unstake) \<and> \<not> truthy amount then
        (''Error: Amount is required for '' @ operationStr operation @ '' operation.'', [])
      else if operation = Redeem \<and> \<not> truthy requestId then
        (''Error: Request ID is required for redeem operation.'', [])
      else
        (case buildCall parseUnits senderAddress operation amount requestId of
           Inl e \<Rightarrow> (''Apriori '' @ operationStr operation @ '' failed: '' @ e, [])
         | Inr c \<Rightarrow>
             (let rq = \<lparr>rq_to = contractAddress, rq_data = data c, rq_value = callValue c,
                        rq_gas = gasLimit c\<rparr>
              in case sendTransaction rq of
                   Inl e \<Rightarrow> (''Apriori '' @ operationStr operation @ '' failed: '' @ e, [rq])
                 | Inr hash \<Rightarrow>
                     (operationName c @ '' operation successful: ''
                        @ successMessage operation amount requestId
                        @ ''. Tx: '' @ EXPLORER_URL @ hash, [rq]))))"

text \<open>
  The fixed layout of the three calls: the selector, written as the ten characters
  \<open>0x\<close> and eight hexadecimal digits, and the number of 32-byte words that follow it.
\<close>

fun selector :: "operation \<Rightarrow> string" where
  "selector Deposit = depositSelector"
| "selector Unstake = unstakeSelector"
| "selector Redeem = redeemSelector"

fun wordCount :: "operation \<Rightarrow> nat" where
  "wordCount Deposit = 2"
| "wordCount Unstake = 3"
| "wordCount Redeem = 4"

text \<open>
  The integer that the required parameter of an operation denotes, when the parameter is
  present and converts: the amount for deposit and unstake, the request id for redeem.
\<close>

definition requiredParam ::
  "(string \<Rightarrow> nat \<Rightarrow> exn + int) \<Rightarrow> operation \<Rightarrow> string option \<Rightarrow> string option \<Rightarrow> int option" where
  "requiredParam parseUnits operation amount requestId =
     (case (if operation = Redeem then requestId else amount) of
        None \<Rightarrow> None
      | Some p \<Rightarrow>
          if p = [] then None
          else (case (if operation = Redeem then BigInt p else parseUnits p 18) of
                  Inl e \<Rightarrow> None
                | Inr v \<Rightarrow> Some v))"

text \<open>
  Modelled from the spec: the unit conversion \<open>parseUnits\<close> belongs to the client
  library and is not among the sources. The specification describes it as the
  decimal-string-to-integer conversion at a given number of fractional digits, an exact
  multiplication by a power of ten, with a non-numeric or over-precise string being an
  invalid amount. Here a numeric string is a non-empty run of decimal digits, optionally
  followed by a point and further digits.
\<close>

definition parseUnits :: "string \<Rightarrow> nat \<Rightarrow> exn + int" where
  "parseUnits amount decimals =
     (let integer = takeWhile (\<lambda>c. c \<noteq> CHR ''.'') amount;
          fraction = drop 1 (dropWhile (\<lambda>c. c \<noteq> CHR ''.'') amount)
      in if integer = [] \<or> \<not> list_all (isDigitOf 10) (integer @ fraction) then Inl ''InvalidAmount''
         else if decimals < length fraction then Inl ''InvalidAmount''
         else Inr (int (digitsValue 10
                (integer @ fraction @ replicate (decimals - length fraction) CHR ''0''))))"

text \<open>The rational number that a decimal string \<open>i.f\<close> denotes.\<close>

definition decimalValue :: "string \<Rightarrow> rat" where
  "decimalValue amount =
     (let integer = takeWhile (\<lambda>c. c \<noteq> CHR ''.'') amount;
          fraction = drop 1 (dropWhile (\<lambda>c. c \<noteq> CHR ''.'') amount)
      in of_nat (digitsValue 10 integer) + of_nat (digitsValue 10 fraction) / 10 ^ length fraction)"

section \<open>The chain client\<close>

text \<open>
  Blocks, transactions and receipts as the handlers read them. A transaction without
  recipient (\<open>to\<close> is \<open>null\<close>) creates a contract.
\<close>

record transaction =
  tx_hash :: string
  tx_from :: string
  tx_to :: "string option"
  tx_value :: int
  tx_gasPrice :: "int option"

record block =
  blk_number :: int
  blk_timestamp :: int
  blk_transactions :: "transaction list"

record receipt =
  rc_status :: string
  rc_gasUsed :: int
  rc_blockNumber :: int

text \<open>
  What a handler does to the outside world, in order: the requests it sends to the
  public client and the lines it writes with \<open>console.error\<close>.
\<close>

datatype effect =
    GetTransactionCount string
  | GetBlockNumber
  | GetBlock int bool
  | GetTransaction string
  | GetTransactionReceipt string
  | GetChainId
  | GetGasPrice
  | ConsoleError exn

text \<open>
  The public client. Every request either answers or throws. The first argument of each
  operation is the number of effects the running call has produced before the request,
  so that the same request may be answered differently at different moments of a call;
  a handler is studied for every such client.
\<close>

record chain =
  getTransactionCount :: "nat \<Rightarrow> string \<Rightarrow> exn + int"
  getBlockNumber :: "nat \<Rightarrow> exn + int"
  getBlock :: "nat \<Rightarrow> int \<Rightarrow> bool \<Rightarrow> exn + block"
  getTransaction :: "nat \<Rightarrow> string \<Rightarrow> exn + transaction"
  getTransactionReceipt :: "nat \<Rightarrow> string \<Rightarrow> exn + receipt"
  getChainId :: "nat \<Rightarrow> exn + int"
  getGasPrice :: "nat \<Rightarrow> exn + int"

text \<open>\<open>s.toLowerCase()\<close> on ASCII text.\<close>

definition toLowerCase :: "string \<Rightarrow> string" where
  "toLowerCase s =
     map (\<lambda>c. if (65::nat) \<le> of_char c \<and> of_char c \<le> (90::nat)
               then char_of (of_char c + (32::nat)) else c) s"

section \<open>The tool \<open>account-transaction-history\<close>\<close>

text \<open>
  One entry of the result list. The fields hold the values that the report prints:
  \<open>act_value\<close> is the transferred amount (printed with \<open>formatUnits\<close>),
  \<open>act_timestamp\<close> the block time in milliseconds (printed as an ISO date), and
  \<open>act_gasUsed\<close> is \<open>None\<close> where the report says \<open>Unknown\<close>. Block times are
  taken to lie in the range of \<open>Date\<close>, where the ISO rendering does not throw.
\<close>

record activity =
  act_hash :: string
  act_blockNumber :: int
  act_from :: string
  act_to :: "string option"
  act_value :: int
  act_timestamp :: int
  act_status :: string
  act_gasUsed :: "int option"

text \<open>The mutable variables of the handler, and the effects so far.\<close>

record history_state =
  transactions :: "activity list"
  processed :: "string set"
  currentBlock :: int
  effects :: "effect list"

definition blocksToSearch :: nat where
  "blocksToSearch = 10"

text \<open>
  The inner loop over the transactions of one block. A throw of the receipt request
  leaves the loop at once; what was pushed before stays in the state.
\<close>

fun processTransactions ::
  "chain \<Rightarrow> string \<Rightarrow> rat \<Rightarrow> block \<Rightarrow> transaction list \<Rightarrow> history_state
     \<Rightarrow> exn option \<times> history_state" where
  "processTransactions client formattedAddress limit blk [] st = (None, st)"
| "processTransactions client formattedAddress limit blk (tx # txs) st =
     (if tx_hash tx \<in> processed st \<or> limit \<le> of_nat (length (transactions st)) then
        processTransactions client formattedAddress limit blk txs st
      else
        (let txFrom = toLowerCase (tx_from tx);
             txTo = (if truthy (tx_to tx) then map_option toLowerCase (tx_to tx) else None)
         in if txFrom = formattedAddress \<or> txTo = Some formattedAddress then
              (let st1 = st\<lparr>effects := effects st @ [GetTransactionReceipt (tx_hash tx)]\<rparr>
               in case getTransactionReceipt client (length (effects st)) (tx_hash tx) of
                    Inl e \<Rightarrow> (Some e, st1)
                  | Inr receipt \<Rightarrow>
                      processTransactions client formattedAddress limit blk txs
                        (st1\<lparr>transactions := transactions st1 @
                                [\<lparr>act_hash = tx_hash tx,
                                  act_blockNumber = blk_number blk,
                                  act_from = tx_from tx,
                                  act_to = tx_to tx,
                                  act_value = tx_value tx,
                                  act_timestamp = blk_timestamp blk * 1000,
                                  act_status = rc_status receipt,
                                  act_gasUsed = (if rc_gasUsed receipt \<noteq> 0
                                                 then Some (rc_gasUsed receipt) else None)\<rparr>],
                              processed := insert (tx_hash tx) (processed st1)\<rparr>))
            else processTransactions client formattedAddress limit blk txs st))"

text \<open>
  The body of the outer loop: the \<open>try\<close> block with its \<open>catch\<close>. Either way the
  block number goes down by one.
\<close>

definition historyStep :: "chain \<Rightarrow> string \<Rightarrow> rat \<Rightarrow> history_state \<Rightarrow> history_state" where
  "historyStep client formattedAddress limit st =
     (let st1 = st\<lparr>effects := effects st @ [GetBlock (currentBlock st) True]\<rparr>
      in case getBlock client (length (effects st)) (currentBlock st) True of
           Inl blockError \<Rightarrow>
             st1\<lparr>effects := effects st1 @ [ConsoleError blockError],
                 currentBlock := currentBlock st1 - 1\<rparr>
         | Inr blk \<Rightarrow>
             (case processTransactions client formattedAddress limit blk
                     (blk_transactions blk) st1 of
                (None, st2) \<Rightarrow> st2\<lparr>currentBlock := currentBlock st2 - 1\<rparr>
              | (Some blockError, st2) \<Rightarrow>
                  st2\<lparr>effects := effects st2 @ [ConsoleError blockError],
                      currentBlock := currentBlock st2 - 1\<rparr>))"

text \<open>The outer \<open>for\<close> loop; it returns the final counter with the final state.\<close>

function historyLoop ::
  "chain \<Rightarrow> string \<Rightarrow> rat \<Rightarrow> nat \<Rightarrow> history_state \<Rightarrow> nat \<times> history_state" where
  "historyLoop client formattedAddress limit i st =
     (if i < blocksToSearch \<and> of_nat (length (transactions st)) < limit then
        historyLoop client formattedAddress limit (Suc i)
          (historyStep client formattedAddress limit st)
      else (i, st))"
  by pat_completeness auto
termination
  by (relation "measure (\<lambda>(client, formattedAddress, limit, i, st). blocksToSearch - i)") auto

declare historyLoop.simps [simp del]

datatype history_result = HistoryReport int "activity list" | HistoryError exn

text \<open>
  The variables when the walk starts: nothing found, nothing processed, the head of the
  chain as the current block, and the two requests made so far.
\<close>

definition historyStart :: "string \<Rightarrow> int \<Rightarrow> history_state" where
  "historyStart address latestBlock =
     \<lparr>transactions = [], processed = {}, currentBlock = latestBlock,
      effects = [GetTransactionCount address, GetBlockNumber]\<rparr>"

text \<open>
  The handler: the nonce, the head of the chain, then the walk. A throw outside the
  walk ends the call with the error text. The numeric input \<open>limit\<close> is a rational.
\<close>

definition accountTransactionHistory ::
  "chain \<Rightarrow> string \<Rightarrow> rat \<Rightarrow> history_result \<times> effect list" where
  "accountTransactionHistory client address limit =
     (case getTransactionCount client 0 address of
        Inl e \<Rightarrow> (HistoryError e, [GetTransactionCount address])
      | Inr sentTxs \<Rightarrow>
          (case getBlockNumber client 1 of
             Inl e \<Rightarrow> (HistoryError e, [GetTransactionCount address, GetBlockNumber])
           | Inr latestBlock \<Rightarrow>
               (let st = snd (historyLoop client (toLowerCase address) limit 0
                               (historyStart address latestBlock))
                in (HistoryReport sentTxs (transactions st), effects st))))"

section \<open>The tool \<open>chain-statistics\<close>\<close>

record stats_state =
  totalTransactions :: nat
  uniqueAddresses :: "string set"
  statEffects :: "effect list"

text \<open>The \<open>forEach\<close> over the transactions of a block.\<close>

fun addAddresses :: "transaction list \<Rightarrow> string set \<Rightarrow> string set" where
  "addAddresses [] addrs = addrs"
| "addAddresses (tx # txs) addrs =
     addAddresses txs
       (case tx_to tx of
          None \<Rightarrow> insert (tx_from tx) addrs
        | Some t \<Rightarrow> if t \<noteq> [] then insert t (insert (tx_from tx) addrs)
                    else insert (tx_from tx) addrs)"

text \<open>
  The body of the loop for counter \<open>i\<close>: the block is requested twice, first plain and
  then with its transactions; a throw of either request is caught and written out.
\<close>

definition statsStep :: "chain \<Rightarrow> int \<Rightarrow> nat \<Rightarrow> stats_state \<Rightarrow> stats_state" where
  "statsStep client latestBlock i st =
     (let blockNumber = latestBlock - int i
      in case getBlock client (length (statEffects st)) blockNumber False of
           Inl e \<Rightarrow>
             st\<lparr>statEffects := statEffects st @ [GetBlock blockNumber False, ConsoleError e]\<rparr>
         | Inr blockInfo \<Rightarrow>
             (case getBlock client (Suc (length (statEffects st))) blockNumber True of
                Inl e \<Rightarrow>
                  st\<lparr>statEffects := statEffects st @
                        [GetBlock blockNumber False, GetBlock blockNumber True, ConsoleError e]\<rparr>
              | Inr blockWithTxs \<Rightarrow>
                  st\<lparr>totalTransactions :=
                        totalTransactions st + length (blk_transactions blockWithTxs),
                      uniqueAddresses :=
                        addAddresses (blk_transactions blockWithTxs) (uniqueAddresses st),
                      statEffects := statEffects st @
                        [GetBlock blockNumber False, GetBlock blockNumber True]\<rparr>))"

function statsLoop :: "chain \<Rightarrow> int \<Rightarrow> rat \<Rightarrow> nat \<Rightarrow> stats_state \<Rightarrow> stats_state" where
  "statsLoop client latestBlock blocks i st =
     (if of_nat i < min blocks 10 then
        statsLoop client latestBlock blocks (Suc i) (statsStep client latestBlock i st)
      else st)"
  by pat_completeness auto
termination
  by (relation "measure (\<lambda>(client, latestBlock, blocks, i, st). 10 - i)") auto

declare statsLoop.simps [simp del]

text \<open>
  The numbers of the host language are binary64 floating-point numbers: 53 significant
  bits, exponents from \<open>-1022\<close> to \<open>1023\<close>, subnormal numbers below, and results
  rounded to the nearest number, ties to the even significand. A finite number is
  represented by its exact rational value (the sign of zero is not kept), an infinity by
  its sign.
\<close>

datatype jsnum = NaN | Infinity bool | Finite rat

text \<open>The power of two with an integer exponent.\<close>

definition pow2 :: "int \<Rightarrow> rat" where
  "pow2 e = (if 0 \<le> e then 2 ^ nat e else 1 / 2 ^ nat (- e))"

text \<open>The number of binary digits of a natural number.\<close>

fun bitLength :: "nat \<Rightarrow> nat" where
  "bitLength n = (if n = 0 then 0 else Suc (bitLength (n div 2)))"

declare bitLength.simps [simp del]

text \<open>
  The binary exponent of a positive rational \<open>q\<close>: the integer \<open>e\<close> with
  \<open>2 ^ e \<le> q < 2 ^ (e + 1)\<close>.
\<close>

definition exponentOf :: "rat \<Rightarrow> int" where
  "exponentOf q =
     (if 1 \<le> q then int (bitLength (nat \<lfloor>q\<rfloor>)) - 1
      else (let k = int (bitLength (nat \<lfloor>1 / q\<rfloor>)) - 1
            in if pow2 (- k) \<le> q then - k else - k - 1))"

text \<open>The nearest integer, a tie going to the even one.\<close>

definition roundHalfEven :: "rat \<Rightarrow> int" where
  "roundHalfEven x =
     (let f = \<lfloor>x\<rfloor>; d = x - of_int f
      in if d < 1 / 2 then f
         else if 1 / 2 < d then f + 1
         else if even f then f else f + 1)"

text \<open>
  The floating-point number nearest to a rational: the magnitude is rounded to a multiple
  of the unit in the last place, which is \<open>2 ^ (e - 52)\<close> for a normal number and
  \<open>2 ^ (- 1074)\<close> for a subnormal one; a result of \<open>2 ^ 1024\<close> or more overflows to
  an infinity.
\<close>

definition roundToDouble :: "rat \<Rightarrow> jsnum" where
  "roundToDouble q =
     (if q = 0 then Finite 0
      else (let a = \<bar>q\<bar>;
                u = pow2 (max (exponentOf a - 52) (- 1074));
                r = of_int (roundHalfEven (a / u)) * u
            in if 2 ^ 1024 \<le> r then Infinity (q < 0)
               else Finite (if q < 0 then - r else r)))"

text \<open>
  The division \<open>a / b\<close> of a count by a number: zero by zero is not a number, anything
  else by zero is infinite, and every other quotient is the exact quotient rounded. The
  count is taken to be below \<open>2 ^ 53\<close>, where the host keeps it exactly, and a divisor
  of negative zero is not told from zero.
\<close>

definition jsDivide :: "nat \<Rightarrow> rat \<Rightarrow> jsnum" where
  "jsDivide a b =
     (if b = 0 then (if a = 0 then NaN else Infinity False)
      else roundToDouble (of_nat a / b))"

text \<open>The digits of a natural number in base 10, most significant first.\<close>

fun toDecimal :: "nat \<Rightarrow> string" where
  "toDecimal n = (if n < 10 then [hexDigit n] else toDecimal (n div 10) @ [hexDigit (n mod 10)])"

declare toDecimal.simps [simp del]

text \<open>
  What \<open>x.toFixed(2)\<close> prints. Below \<open>10 ^ 21\<close> it is the integer \<open>n\<close> nearest to
  \<open>100 * x\<close> (the larger one at a tie), written with at least three digits and a point
  before the last two, behind a minus sign for a negative number. From \<open>10 ^ 21\<close> on
  the host prints the number in exponential notation; that text is not spelled out and
  the number is kept instead.
\<close>

datatype printed = Digits string | Exponential rat

definition toFixed2 :: "jsnum \<Rightarrow> printed" where
  "toFixed2 x =
     (case x of
        NaN \<Rightarrow> Digits ''NaN''
      | Infinity negative \<Rightarrow> Digits (if negative then ''-Infinity'' else ''Infinity'')
      | Finite v \<Rightarrow>
          (let s = (if v < 0 then ''-'' else []);
               a = \<bar>v\<bar>
           in if 10 ^ 21 \<le> a then Exponential v
              else (let n = nat \<lfloor>a * 100 + 1 / 2\<rfloor>;
                        m = padStart 3 CHR ''0'' (toDecimal n);
                        k = length m
                    in Digits (s @ take (k - 2) m @ ''.'' @ drop (k - 2) m))))"

record stats_report =
  sr_chainId :: int
  sr_latestBlock :: int
  sr_gasPrice :: int
  sr_blocks :: rat
  sr_totalTransactions :: nat
  sr_uniqueAddresses :: nat
  sr_averageTransactionsPerBlock :: printed

datatype stats_result = StatsReport stats_report | StatsError exn

text \<open>The counters when the walk starts, after the request for the head of the chain.\<close>

definition statsStart :: stats_state where
  "statsStart = \<lparr>totalTransactions = 0, uniqueAddresses = {}, statEffects = [GetBlockNumber]\<rparr>"

definition chainStatistics :: "chain \<Rightarrow> rat \<Rightarrow> stats_result \<times> effect list" where
  "chainStatistics client blocks =
     (case getBlockNumber client 0 of
        Inl e \<Rightarrow> (StatsError e, [GetBlockNumber])
      | Inr latestBlock \<Rightarrow>
          (let st = statsLoop client latestBlock blocks 0 statsStart
           in case getChainId client (length (statEffects st)) of
                Inl e \<Rightarrow> (StatsError e, statEffects st @ [GetChainId])
              | Inr chainId \<Rightarrow>
                  (case getGasPrice client (Suc (length (statEffects st))) of
                     Inl e \<Rightarrow> (StatsError e, statEffects st @ [GetChainId, GetGasPrice])
                   | Inr gasPrice \<Rightarrow>
                       (StatsReport
                          \<lparr>sr_chainId = chainId,
                           sr_latestBlock = latestBlock,
                           sr_gasPrice = gasPrice,
                           sr_blocks = blocks,
                           sr_totalTransactions = totalTransactions st,
                           sr_uniqueAddresses = card (uniqueAddresses st),
                           sr_averageTransactionsPerBlock =
                             toFixed2 (jsDivide (totalTransactions st) blocks)\<rparr>,
                        statEffects st @ [GetChainId, GetGasPrice]))))"

section \<open>The tool \<open>transaction-details\<close>\<close>

text \<open>
  The fields of the report. \<open>dr_timestamp\<close> is the time value of the \<open>Date\<close> that the
  report prints as an ISO string, in milliseconds; \<open>dr_gasUsed\<close> is \<open>None\<close> where the
  report says \<open>Unknown\<close>.
\<close>

record details_report =
  dr_status :: string
  dr_blockNumber :: int
  dr_from :: string
  dr_to :: string
  dr_value :: int
  dr_gasUsed :: "int option"
  dr_gasPrice :: int
  dr_timestamp :: int

datatype details_result = DetailsReport details_report | DetailsError exn

text \<open>
  The handler; \<open>now\<close> is what \<open>new Date()\<close> reads from the clock of the server when
  the text is put together.
\<close>

definition transactionDetails ::
  "chain \<Rightarrow> int \<Rightarrow> string \<Rightarrow> details_result \<times> effect list" where
  "transactionDetails client now hash =
     (case getTransaction client 0 hash of
        Inl e \<Rightarrow> (DetailsError e, [GetTransaction hash])
      | Inr txn \<Rightarrow>
          (case getTransactionReceipt client 1 hash of
             Inl e \<Rightarrow> (DetailsError e, [GetTransaction hash, GetTransactionReceipt hash])
           | Inr receipt \<Rightarrow>
               (DetailsReport
                  \<lparr>dr_status = (if rc_status receipt = ''success'' then ''Success'' else ''Failed''),
                   dr_blockNumber = rc_blockNumber receipt,
                   dr_from = tx_from txn,
                   dr_to = (case tx_to txn of
                            None \<Rightarrow> ''Contract Creation''
                          | Some t \<Rightarrow> if t \<noteq> [] then t else ''Contract Creation''),
                   dr_value = tx_value txn,
                   dr_gasUsed = (if rc_gasUsed receipt \<noteq> 0 then Some (rc_gasUsed receipt) else None),
                   dr_gasPrice = (case tx_gasPrice txn of None \<Rightarrow> 0 | Some g \<Rightarrow> g),
                   dr_timestamp = now\<rparr>,
                [GetTransaction hash, GetTransactionReceipt hash])))"

section \<open>Reading the effects of a call\<close>

text \<open>
  The numbers of the blocks requested, in the order of the requests; the flag selects
  the requests with or without the transactions.
\<close>

fun blockRequests :: "bool \<Rightarrow> effect list \<Rightarrow> int list" where
  "blockRequests f [] = []"
| "blockRequests f (GetBlock n g # es) =
     (if g = f then n # blockRequests f es else blockRequests f es)"
| "blockRequests f (e # es) = blockRequests f es"

text \<open>The messages written with \<open>console.error\<close>, in order.\<close>

fun consoleErrors :: "effect list \<Rightarrow> exn list" where
  "consoleErrors [] = []"
| "consoleErrors (ConsoleError m # es) = m # consoleErrors es"
| "consoleErrors (e # es) = consoleErrors es"

section \<open>A small chain for examples\<close>

text \<open>
  The head is block 100. Block 100 holds a transfer of the account \<open>0xAB\<close> to
  itself (twice in the list) and a transfer to it; block 99 cannot be fetched; block 98
  holds a contract creation whose receipt cannot be fetched; every other block is empty.
\<close>

definition txA :: transaction where
  "txA = \<lparr>tx_hash = ''0xa'', tx_from = ''0xAB'', tx_to = Some ''0xab'', tx_value = 1,
          tx_gasPrice = Some 50\<rparr>"

definition txB :: transaction where
  "txB = \<lparr>tx_hash = ''0xb'', tx_from = ''0xcd'', tx_to = Some ''0xAB'', tx_value = 2,
          tx_gasPrice = Some 50\<rparr>"

definition txC :: transaction where
  "txC = \<lparr>tx_hash = ''0xc'', tx_from = ''0xab'', tx_to = None, tx_value = 0,
          tx_gasPrice = None\<rparr>"

definition exampleChain :: chain where
  "exampleChain =
     \<lparr>getTransactionCount = (\<lambda>t a. Inr 7),
      getBlockNumber = (\<lambda>t. Inr 100),
      getBlock = (\<lambda>t n withTransactions.
         if n = 99 then Inl ''block not found''
         else Inr \<lparr>blk_number = n, blk_timestamp = 1700000000,
                   blk_transactions =
                     (if n = 100 then [txA, txA, txB] else if n = 98 then [txC] else [])\<rparr>),
      getTransaction = (\<lambda>t h. if h = ''0xa'' then Inr txA else Inl ''transaction not found''),
      getTransactionReceipt = (\<lambda>t h.
         if h = ''0xc'' then Inl ''receipt not found''
         else Inr \<lparr>rc_status = ''success'', rc_gasUsed = 21000, rc_blockNumber = 100\<rparr>),
      getChainId = (\<lambda>t. Inr 10143),
      getGasPrice = (\<lambda>t. Inr 52000000000)\<rparr>"

section \<open>Hexadecimal words\<close>



lemma length_padStart: "length (padStart n c s) = max n (length s)"
  by (simp add: padStart_def)

lemma digitVal_hexDigit_all: "list_all (\<lambda>d. digitVal (hexDigit d) = Some d) [0..<16]"
  by code_simp

lemma digitVal_hexDigit: "d < 16 \<Longrightarrow> digitVal (hexDigit d) = Some d"
  using digitVal_hexDigit_all by (simp only: list_all_iff set_upt atLeastLessThan_iff) simp

lemma digitsValue_Nil: "digitsValue b [] = 0"
  by (simp add: digitsValue_def)

lemma digitsValue_snoc:
  "digitsValue b (s @ [c]) = digitsValue b s * b + (case digitVal c of None \<Rightarrow> 0 | Some d \<Rightarrow> d)"
  by (simp add: digitsValue_def)

lemma digitsValue_append:
  "digitsValue b (s @ t) = digitsValue b s * b ^ length t + digitsValue b t"
proof (induction t rule: rev_induct)
  case Nil
  show ?case by (simp add: digitsValue_Nil)
next
  case (snoc c t)
  have "digitsValue b (s @ t @ [c]) = digitsValue b ((s @ t) @ [c])" by simp
  also have "\<dots> = digitsValue b (s @ t) * b + (case digitVal c of None \<Rightarrow> 0 | Some d \<Rightarrow> d)"
    by (rule digitsValue_snoc)
  finally show ?case
    by (simp add: snoc.IH digitsValue_snoc algebra_simps)
qed

lemma digitsValue_zeros: "digitsValue b (replicate k CHR ''0'') = 0"
proof (induction k)
  case 0
  show ?case by (simp add: digitsValue_Nil)
next
  case (Suc k)
  have "digitsValue b (replicate (Suc k) CHR ''0'') = digitsValue b ([CHR ''0''] @ replicate k CHR ''0'')"
    by simp
  also have "\<dots> = digitsValue b [CHR ''0''] * b ^ k + digitsValue b (replicate k CHR ''0'')"
    by (simp only: digitsValue_append length_replicate)
  also have "digitsValue b [CHR ''0''] = 0"
    by (simp add: digitsValue_def digitVal_def)
  finally show ?case using Suc by simp
qed

lemma digitsValue_padStart:
  "digitsValue b (padStart n CHR ''0'' s) = digitsValue b s"
  by (simp add: padStart_def digitsValue_append digitsValue_zeros)

lemma digitsValue_toHex: "digitsValue 16 (toHex n) = n"
proof (induction n rule: toHex.induct)
  case (1 n)
  show ?case
  proof (cases "n < 16")
    case True
    then show ?thesis
      by (subst toHex.simps) (simp add: digitsValue_def digitVal_hexDigit)
  next
    case False
    with 1 have "digitsValue 16 (toHex (n div 16)) = n div 16" by simp
    with False show ?thesis
      by (subst toHex.simps) (simp add: digitsValue_snoc digitVal_hexDigit)
  qed
qed

lemma toHex_hex: "list_all (isDigitOf 16) (toHex n)"
proof (induction n rule: toHex.induct)
  case (1 n)
  show ?case
  proof (cases "n < 16")
    case True
    then show ?thesis
      by (subst toHex.simps) (simp add: isDigitOf_def digitVal_hexDigit)
  next
    case False
    with 1 have "list_all (isDigitOf 16) (toHex (n div 16))" by simp
    with False show ?thesis
      by (subst toHex.simps) (simp add: isDigitOf_def digitVal_hexDigit)
  qed
qed

lemma toHex_length_le: "n < 16 ^ k \<Longrightarrow> 0 < k \<Longrightarrow> length (toHex n) \<le> k"
proof (induction n arbitrary: k rule: toHex.induct)
  case (1 n)
  show ?case
  proof (cases "n < 16")
    case True
    with "1.prems" show ?thesis by (subst toHex.simps) simp
  next
    case False
    from "1.prems" obtain j where k: "k = Suc j" by (cases k) auto
    with False "1.prems" have j: "0 < j" by (cases j) auto
    from "1.prems" k have "n div 16 < 16 ^ j"
      by (simp add: less_mult_imp_div_less mult.commute)
    from "1.IH" [OF False this j] have "length (toHex (n div 16)) \<le> j" .
    with False k show ?thesis by (subst toHex.simps) simp
  qed
qed

lemma toHex_length_gt: "16 ^ k \<le> n \<Longrightarrow> k < length (toHex n)"
proof (induction n arbitrary: k rule: toHex.induct)
  case (1 n)
  show ?case
  proof (cases "n < 16")
    case True
    with "1.prems" have "(16::nat) ^ k < 16 ^ 1" by simp
    then have "k < 1" by (rule power_less_imp_less_exp [rotated]) simp
    with True show ?thesis by (subst toHex.simps) simp
  next
    case False
    show ?thesis
    proof (cases k)
      case 0
      with False show ?thesis by (subst toHex.simps) simp
    next
      case (Suc j)
      with "1.prems" have "16 ^ j \<le> n div 16"
        by (simp add: less_eq_div_iff_mult_less_eq mult.commute)
      from "1.IH" [OF False this] have "j < length (toHex (n div 16))" .
      with False Suc show ?thesis by (subst toHex.simps) simp
    qed
  qed
qed


lemma length_word64:
  "0 \<le> v \<Longrightarrow> v < 2 ^ 256 \<Longrightarrow> length (padStart 64 CHR ''0'' (toString16 v)) = 64"
proof -
  assume v: "0 \<le> v" "v < 2 ^ 256"
  then have "nat v < 2 ^ 256" by (simp add: nat_less_iff)
  also have "(2::nat) ^ 256 = 16 ^ 64" by simp
  finally have "length (toHex (nat v)) \<le> 64" by (rule toHex_length_le) simp
  with v show ?thesis by (simp add: length_padStart toString16_def)
qed

lemma length_addressWord:
  "length senderAddress = 42 \<Longrightarrow> length (padStart 64 CHR ''0'' (slice 2 senderAddress)) = 64"
  by (simp add: length_padStart slice_def)

lemma requiredParam_Redeem:
  "requiredParam conv Redeem amount requestId = Some v \<Longrightarrow>
     \<exists>r. requestId = Some r \<and> r \<noteq> [] \<and> BigInt r = Inr v"
  by (auto simp: requiredParam_def split: option.splits if_splits sum.splits)

lemma requiredParam_amount:
  "operation \<noteq> Redeem \<Longrightarrow> requiredParam conv operation amount requestId = Some v \<Longrightarrow>
     \<exists>a. amount = Some a \<and> a \<noteq> [] \<and> conv a 18 = Inr v"
  by (auto simp: requiredParam_def split: option.splits if_splits sum.splits)

lemma stake_submits:
  assumes "requiredParam conv operation amount requestId = Some v"
  shows "\<exists>c. buildCall conv senderAddress operation amount requestId = Inr c \<and>
           snd (aprioriMonStake conv sendTransaction senderAddress operation amount requestId)
             = [\<lparr>rq_to = contractAddress, rq_data = data c, rq_value = callValue c, rq_gas = gasLimit c\<rparr>]"
proof (cases operation)
  case Redeem
  with assms obtain r where "requestId = Some r" "r \<noteq> []" "BigInt r = Inr v"
    by (auto dest: requiredParam_Redeem)
  with Redeem show ?thesis
    by (simp add: aprioriMonStake_def buildCall_def truthy_def Let_def split: sum.splits)
next
  case Deposit
  with assms obtain a where "amount = Some a" "a \<noteq> []" "conv a 18 = Inr v"
    using requiredParam_amount [of operation conv amount requestId v] by auto
  with Deposit show ?thesis
    by (simp add: aprioriMonStake_def buildCall_def truthy_def Let_def split: sum.splits)
next
  case Unstake
  with assms obtain a where "amount = Some a" "a \<noteq> []" "conv a 18 = Inr v"
    using requiredParam_amount [of operation conv amount requestId v] by auto
  with Unstake show ?thesis
    by (simp add: aprioriMonStake_def buildCall_def truthy_def Let_def split: sum.splits)
qed

section \<open>The calldata of the staking tool\<close>

subsection \<open>Concrete conversions\<close>

lemma BigInt_2_256:
  "BigInt ''115792089237316195423570985008687907853269984665640564039457584007913129639936'' = Inr 115792089237316195423570985008687907853269984665640564039457584007913129639936"
  by (simp add: BigInt_def StringToBigInt_def trim_def isWhiteSpace_def parseDigits_def
      isDigitOf_def digitVal_def digitsValue_def)

lemma toString16_2_256:
  "toString16 115792089237316195423570985008687907853269984665640564039457584007913129639936 = ''10000000000000000000000000000000000000000000000000000000000000000''"
  by (simp add: toString16_def toHex.simps hexDigit_def)

subsection \<open>Selector and length\<close>

text \<open>
  Claim C1, as amended. The calldata is the string \<open>0x\<close> followed by two hexadecimal
  digits per byte. When the required parameter of the operation is present and denotes an
  integer \<open>v\<close> with \<open>0 \<le> v < 2 ^ 256\<close>, and the sender address has its 42 characters,
  the handler submits exactly one request; its data begins with the selector of the
  operation and is \<open>4 + 32 * wordCount\<close> bytes long, that is
  \<open>2 + 2 * (4 + 32 * wordCount)\<close> characters.
\<close>

theorem stake_calldata_layout:
  assumes "length senderAddress = 42"
    and "requiredParam conv operation amount requestId = Some v"
    and "0 \<le> v" and "v < 2 ^ 256"
  shows "\<exists>rq. snd (aprioriMonStake conv sendTransaction senderAddress operation amount requestId) = [rq]
            \<and> take 10 (rq_data rq) = selector operation
            \<and> length (rq_data rq) = 2 + 2 * (4 + 32 * wordCount operation)"
proof -
  from assms(2) obtain c where
    c: "buildCall conv senderAddress operation amount requestId = Inr c"
    and s: "snd (aprioriMonStake conv sendTransaction senderAddress operation amount requestId)
        = [\<lparr>rq_to = contractAddress, rq_data = data c, rq_value = callValue c, rq_gas = gasLimit c\<rparr>]"
    using stake_submits by blast
  note w = length_word64 [OF assms(3,4)] and a = length_addressWord [OF assms(1)]
  have w2: "length (padStart 64 CHR ''0'' ''40'') = 64" "length (padStart 64 CHR ''0'' ''01'') = 64"
    by (simp_all add: length_padStart)
  have "take 10 (data c) = selector operation \<and> length (data c) = 2 + 2 * (4 + 32 * wordCount operation)"
  proof (cases operation)
    case Deposit
    with assms(2) obtain a' where "amount = Some a'" "conv a' 18 = Inr v"
      using requiredParam_amount [of operation conv amount requestId v] by auto
    with Deposit c w a show ?thesis
      by (auto simp: buildCall_def Let_def depositSelector_def)
  next
    case Unstake
    with assms(2) obtain a' where "amount = Some a'" "conv a' 18 = Inr v"
      using requiredParam_amount [of operation conv amount requestId v] by auto
    with Unstake c w a show ?thesis
      by (auto simp: buildCall_def Let_def unstakeSelector_def)
  next
    case Redeem
    with assms(2) obtain r where "requestId = Some r" "BigInt r = Inr v"
      by (auto dest: requiredParam_Redeem)
    with Redeem c w a w2 show ?thesis
      by (auto simp: buildCall_def Let_def redeemSelector_def)
  qed
  with s show ?thesis by simp
qed

text \<open>The layout theorem at a redeem call for request 255.\<close>

theorem stake_calldata_layout_witness:
  "\<exists>rq. snd (aprioriMonStake (\<lambda>a d. Inl ''unused'') (\<lambda>rq. Inr ''0xabc'')
              ''0x1111111111111111111111111111111111111111'' Redeem None (Some ''255'')) = [rq]
        \<and> take 10 (rq_data rq) = ''0x492e47d2''
        \<and> length (rq_data rq) = 266"
proof -
  have "requiredParam (\<lambda>a d. Inl ''unused'') Redeem None (Some ''255'') = Some 255"
    by (simp add: requiredParam_def BigInt_def StringToBigInt_def trim_def isWhiteSpace_def parseDigits_def
      isDigitOf_def digitVal_def digitsValue_def)
  from stake_calldata_layout [OF _ this, of "''0x1111111111111111111111111111111111111111''" "\<lambda>rq. Inr ''0xabc''"]
  show ?thesis by (simp add: redeemSelector_def)
qed

text \<open>
  Claim C1 as stated, without the bound on the value, fails: the request id
  \<open>2 ^ 256\<close> is present and converts, and the call that is submitted has 267
  characters, one more than the four words of a redeem call allow.
\<close>

theorem stake_calldata_length_counterexample:
  "truthy (Some ''115792089237316195423570985008687907853269984665640564039457584007913129639936'')
   \<and> BigInt ''115792089237316195423570985008687907853269984665640564039457584007913129639936'' = Inr (2 ^ 256)
   \<and> map (\<lambda>rq. length (rq_data rq)) (snd (aprioriMonStake (\<lambda>a d. Inl ''unused'') (\<lambda>rq. Inr ''0xabc'')
         ''0x1111111111111111111111111111111111111111'' Redeem None
         (Some ''115792089237316195423570985008687907853269984665640564039457584007913129639936''))) = [267]
   \<and> (267::nat) \<noteq> 2 + 2 * (4 + 32 * wordCount Redeem)"
  by (simp add: truthy_def aprioriMonStake_def buildCall_def BigInt_2_256 toString16_2_256
      Let_def padStart_def slice_def redeemSelector_def)

subsection \<open>The amount word of deposit and unstake\<close>

lemma replicate_numeral: "replicate (numeral k) x = x # replicate (pred_numeral k) x"
  by (simp add: numeral_eq_Suc)

lemma parseUnits_exact:
  assumes "parseUnits a d = Inr v"
  shows "0 \<le> v \<and> of_int v = decimalValue a * 10 ^ d"
proof -
  define I where "I = takeWhile (\<lambda>c. c \<noteq> CHR ''.'') a"
  define F where "F = drop 1 (dropWhile (\<lambda>c. c \<noteq> CHR ''.'') a)"
  from assms have le: "length F \<le> d"
    and v: "v = int (digitsValue 10 (I @ F @ replicate (d - length F) CHR ''0''))"
    by (auto simp: parseUnits_def Let_def I_def F_def split: if_splits)
  have "digitsValue 10 (I @ F @ replicate (d - length F) CHR ''0'')
      = digitsValue 10 I * 10 ^ d + digitsValue 10 F * 10 ^ (d - length F)"
    using le by (simp add: digitsValue_append digitsValue_zeros power_add [symmetric])
  then have "(of_int v :: rat)
      = of_nat (digitsValue 10 I) * 10 ^ d + of_nat (digitsValue 10 F) * 10 ^ (d - length F)"
    by (simp add: v)
  also have "(10::rat) ^ (d - length F) = 10 ^ d / 10 ^ length F"
    using le by (simp add: power_diff)
  finally have "of_int v = decimalValue a * 10 ^ d"
    by (simp add: decimalValue_def Let_def I_def F_def algebra_simps)
  with v show ?thesis by simp
qed

lemma word64_value:
  assumes "0 \<le> v" and "v < 2 ^ 256"
  shows "length (padStart 64 CHR ''0'' (toString16 v)) = 64"
    and "list_all (isDigitOf 16) (padStart 64 CHR ''0'' (toString16 v))"
    and "int (digitsValue 16 (padStart 64 CHR ''0'' (toString16 v))) = v"
proof -
  show "length (padStart 64 CHR ''0'' (toString16 v)) = 64"
    using assms by (rule length_word64)
  have z: "isDigitOf 16 CHR ''0''" by (simp add: isDigitOf_def digitVal_def)
  show "list_all (isDigitOf 16) (padStart 64 CHR ''0'' (toString16 v))"
    using assms(1) z toHex_hex [of "nat v"] by (auto simp: padStart_def toString16_def list_all_iff)
  show "int (digitsValue 16 (padStart 64 CHR ''0'' (toString16 v))) = v"
    using assms(1) by (simp add: digitsValue_padStart toString16_def digitsValue_toHex)
qed

lemma parseUnits_1_5: "parseUnits ''1.5'' 18 = Inr 1500000000000000000"
  by (simp add: parseUnits_def isDigitOf_def digitVal_def digitsValue_def replicate_numeral)

lemma toString16_1_5: "toString16 1500000000000000000 = ''14d1120d7b160000''"
  by (simp add: toString16_def toHex.simps hexDigit_def)

lemma parseUnits_1e60: "parseUnits ''1000000000000000000000000000000000000000000000000000000000000'' 18 = Inr 1000000000000000000000000000000000000000000000000000000000000000000000000000000"
  by (simp add: parseUnits_def isDigitOf_def digitVal_def digitsValue_def replicate_numeral)

lemma toString16_1e78: "toString16 1000000000000000000000000000000000000000000000000000000000000000000000000000000 = ''8a2dbf142dfcc7ab6e3569326c7843372a9f4d2505e3a40000000000000000000''"
  by (simp add: toString16_def toHex.simps hexDigit_def)

text \<open>
  Claim C2, as amended. For deposit and unstake with an amount that the unit conversion
  accepts and whose scaled value \<open>v\<close> is below \<open>2 ^ 256\<close>: \<open>v\<close> is the decimal
  number of the string times \<open>10 ^ 18\<close>, exactly; the first word after the selector is
  the hexadecimal rendering of \<open>v\<close> padded with zeros on the left; it has 64
  characters, all of them hexadecimal digits, and read back as a big-endian number it
  is \<open>v\<close>. For the amount \<open>1.5\<close> the word is the rendering of 1500000000000000000.
\<close>

theorem amount_word_encoding:
  assumes "operation = Deposit \<or> operation = Unstake"
    and "a \<noteq> []" and "parseUnits a 18 = Inr v" and "v < 2 ^ 256"
  shows "\<exists>rq w. snd (aprioriMonStake parseUnits sendTransaction senderAddress operation
                      (Some a) requestId) = [rq]
           \<and> w = take 64 (drop 10 (rq_data rq))
           \<and> of_int v = decimalValue a * 10 ^ 18
           \<and> w = padStart 64 CHR ''0'' (toString16 v)
           \<and> length w = 64
           \<and> list_all (isDigitOf 16) w
           \<and> int (digitsValue 16 w) = v
           \<and> (a = ''1.5'' \<longrightarrow> w = ''00000000000000000000000000000000000000000000000014d1120d7b160000'')"
proof -
  from assms(3) have v0: "0 \<le> v" and ex: "of_int v = decimalValue a * 10 ^ 18"
    using parseUnits_exact [of a 18 v] by simp_all
  note w = word64_value [OF v0 assms(4)]
  define rq where "rq = \<lparr>rq_to = contractAddress,
      rq_data = selector operation @ padStart 64 CHR ''0'' (toString16 v)
        @ concat (replicate (wordCount operation - 1) (padStart 64 CHR ''0'' (slice 2 senderAddress))),
      rq_value = (if operation = Deposit then v else 0),
      rq_gas = (if operation = Deposit then gasLimitStake else gasLimitUnstake)\<rparr>"
  have s: "snd (aprioriMonStake parseUnits sendTransaction senderAddress operation
                      (Some a) requestId) = [rq]"
    using assms(1,2,3)
    by (auto simp: aprioriMonStake_def buildCall_def truthy_def Let_def rq_def numeral_2_eq_2
        split: sum.splits)
  have sel: "length (selector operation) = 10"
    by (cases operation) (simp_all add: depositSelector_def unstakeSelector_def redeemSelector_def)
  have t: "take 64 (drop 10 (rq_data rq)) = padStart 64 CHR ''0'' (toString16 v)"
    using sel w(1) by (simp add: rq_def)
  have i: "a = ''1.5'' \<longrightarrow> padStart 64 CHR ''0'' (toString16 v) = ''00000000000000000000000000000000000000000000000014d1120d7b160000''"
    using assms(3) by (auto simp: parseUnits_1_5 toString16_1_5 padStart_def replicate_numeral)
  show ?thesis
    by (intro exI [of _ rq] exI [of _ "padStart 64 CHR ''0'' (toString16 v)"])
      (simp add: s t ex w i)
qed

text \<open>The encoding theorem at a deposit of 1.5.\<close>

theorem amount_word_encoding_witness:
  "\<exists>rq. snd (aprioriMonStake parseUnits (\<lambda>rq. Inr ''0xabc'') ''0x1111111111111111111111111111111111111111'' Deposit
              (Some ''1.5'') None) = [rq]
        \<and> take 64 (drop 10 (rq_data rq)) = ''00000000000000000000000000000000000000000000000014d1120d7b160000''
        \<and> int (digitsValue 16 (take 64 (drop 10 (rq_data rq)))) = 1500000000000000000
        \<and> decimalValue ''1.5'' * 10 ^ 18 = 1500000000000000000"
  using amount_word_encoding [of Deposit "''1.5''" 1500000000000000000 "\<lambda>rq. Inr ''0xabc''"
      "''0x1111111111111111111111111111111111111111''" None]
  by (auto simp: parseUnits_1_5)

text \<open>
  Claim C2 as stated, for every amount, fails: the amount \<open>10 ^ 60\<close> scales to
  \<open>10 ^ 78\<close>, whose rendering has 65 digits; the padding never truncates, so the
  amount takes 65 characters of the data and not one word of 64.
\<close>

theorem amount_word_encoding_counterexample:
  "parseUnits ''1000000000000000000000000000000000000000000000000000000000000'' 18 = Inr (10 ^ 78)
   \<and> map rq_data (snd (aprioriMonStake parseUnits (\<lambda>rq. Inr ''0xabc'') ''0x1111111111111111111111111111111111111111'' Deposit
         (Some ''1000000000000000000000000000000000000000000000000000000000000'') None))
       = [''0x6e553f65'' @ ''8a2dbf142dfcc7ab6e3569326c7843372a9f4d2505e3a40000000000000000000'' @ ''0000000000000000000000001111111111111111111111111111111111111111'']
   \<and> length ''8a2dbf142dfcc7ab6e3569326c7843372a9f4d2505e3a40000000000000000000'' = 65"
  by (simp add: aprioriMonStake_def buildCall_def truthy_def Let_def parseUnits_1e60 toString16_1e78
      padStart_def slice_def depositSelector_def replicate_numeral)

subsection \<open>The words of a redeem call\<close>

lemma BigInt_0: "BigInt ''0'' = Inr 0"
  by (simp add: BigInt_def StringToBigInt_def trim_def isWhiteSpace_def parseDigits_def
      isDigitOf_def digitVal_def digitsValue_def)

lemma BigInt_255: "BigInt ''255'' = Inr 255"
  by (simp add: BigInt_def StringToBigInt_def trim_def isWhiteSpace_def parseDigits_def
      isDigitOf_def digitVal_def digitsValue_def)

lemma BigInt_minus_1: "BigInt ''-1'' = Inr (- 1)"
  by (simp add: BigInt_def StringToBigInt_def trim_def isWhiteSpace_def parseDigits_def
      isDigitOf_def digitVal_def digitsValue_def)

lemma toString16_0: "toString16 0 = ''0''"
  by (simp add: toString16_def toHex.simps hexDigit_def)

lemma toString16_255: "toString16 255 = ''ff''"
  by (simp add: toString16_def toHex.simps hexDigit_def)

lemma toString16_minus_1: "toString16 (- 1) = ''-1''"
  by (simp add: toString16_def toHex.simps hexDigit_def)

lemma redeem_submits:
  assumes "r \<noteq> []" and "BigInt r = Inr v"
  shows "aprioriMonStake conv sendTransaction senderAddress Redeem amount (Some r)
    = (let rq = \<lparr>rq_to = contractAddress,
                  rq_data = redeemSelector @ padStart 64 CHR ''0'' ''40''
                    @ padStart 64 CHR ''0'' (slice 2 senderAddress)
                    @ padStart 64 CHR ''0'' ''01''
                    @ padStart 64 CHR ''0'' (toString16 v),
                  rq_value = 0, rq_gas = gasLimitClaim\<rparr>
       in (case sendTransaction rq of
             Inl e \<Rightarrow> ''Apriori redeem failed: '' @ e
           | Inr hash \<Rightarrow> ''Redeem operation successful: Redeemed MON for request id '' @ r
                          @ ''. Tx: '' @ EXPLORER_URL @ hash,
           [rq]))"
  using assms
  by (simp add: aprioriMonStake_def buildCall_def truthy_def Let_def split: sum.splits)

text \<open>
  Claim C3. A request id is valid when it is present, converts to an integer \<open>v\<close> and
  \<open>0 \<le> v < 2 ^ 256\<close>. For a redeem call with a valid request id and a sender address of
  42 characters, the data submitted is the selector followed by four words, in this order:
  the offset \<open>40\<close> padded with zeros, the 40 hexadecimal digits of the sender address
  behind 24 zeros, the flag \<open>01\<close> padded with zeros, and the word \<open>w\<close> of the request
  id. That word is the hexadecimal rendering of \<open>v\<close> behind zeros, has 64 characters,
  all of them hexadecimal digits, and denotes \<open>v\<close>. The request id \<open>0\<close> gives 64
  zeros and the request id \<open>255\<close> a word that ends in \<open>ff\<close>.
\<close>

theorem redeem_calldata_words:
  assumes "length senderAddress = 42"
    and "r \<noteq> []" and "BigInt r = Inr v" and "0 \<le> v" and "v < 2 ^ 256"
  shows "\<exists>rq w. snd (aprioriMonStake conv sendTransaction senderAddress Redeem amount (Some r)) = [rq]
           \<and> rq_data rq = redeemSelector
                @ (replicate 62 CHR ''0'' @ ''40'')
                @ (replicate 24 CHR ''0'' @ drop 2 senderAddress)
                @ (replicate 62 CHR ''0'' @ ''01'')
                @ w
           \<and> length (drop 2 senderAddress) = 40
           \<and> w = replicate (64 - length (toHex (nat v))) CHR ''0'' @ toHex (nat v)
           \<and> length w = 64
           \<and> list_all (isDigitOf 16) w
           \<and> int (digitsValue 16 w) = v
           \<and> (r = ''0'' \<longrightarrow> w = replicate 64 CHR ''0'')
           \<and> (r = ''255'' \<longrightarrow> drop 62 w = ''ff'')"
proof -
  define w where "w = padStart 64 CHR ''0'' (toString16 v)"
  define rq where "rq = \<lparr>rq_to = contractAddress,
                  rq_data = redeemSelector @ padStart 64 CHR ''0'' ''40''
                    @ padStart 64 CHR ''0'' (slice 2 senderAddress)
                    @ padStart 64 CHR ''0'' ''01'' @ w,
                  rq_value = 0, rq_gas = gasLimitClaim\<rparr>"
  have s: "snd (aprioriMonStake conv sendTransaction senderAddress Redeem amount (Some r)) = [rq]"
    by (simp add: redeem_submits [OF assms(2,3)] Let_def rq_def w_def)
  have d: "rq_data rq = redeemSelector @ (replicate 62 CHR ''0'' @ ''40'')
                @ (replicate 24 CHR ''0'' @ drop 2 senderAddress)
                @ (replicate 62 CHR ''0'' @ ''01'') @ w"
    using assms(1) by (simp add: rq_def padStart_def slice_def)
  have a: "length (drop 2 senderAddress) = 40"
    using assms(1) by simp
  have w1: "w = replicate (64 - length (toHex (nat v))) CHR ''0'' @ toHex (nat v)"
    using assms(4) by (simp add: w_def padStart_def toString16_def)
  note w2 = word64_value [OF assms(4,5), folded w_def]
  have z: "r = ''0'' \<longrightarrow> w = replicate 64 CHR ''0''"
    using assms(3) by (auto simp: BigInt_0 w_def toString16_0 padStart_def replicate_numeral)
  have f: "r = ''255'' \<longrightarrow> drop 62 w = ''ff''"
    using assms(3) by (auto simp: BigInt_255 w_def toString16_255 padStart_def)
  show ?thesis
    by (intro exI [of _ rq] exI [of _ w] conjI s d a w1 w2 z f)
qed

text \<open>The words of the redeem call for request 255.\<close>

theorem redeem_calldata_words_witness:
  "map rq_data (snd (aprioriMonStake (\<lambda>a d. Inl ''unused'') (\<lambda>rq. Inr ''0xabc'') ''0x1111111111111111111111111111111111111111''
       Redeem None (Some ''255'')))
     = [''0x492e47d2'' @ ''0000000000000000000000000000000000000000000000000000000000000040'' @ ''0000000000000000000000001111111111111111111111111111111111111111'' @ ''0000000000000000000000000000000000000000000000000000000000000001''
         @ replicate 62 CHR ''0'' @ ''ff'']"
  using redeem_calldata_words [of "''0x1111111111111111111111111111111111111111''" "''255''" 255 "\<lambda>a d. Inl ''unused''"
      "\<lambda>rq. Inr ''0xabc''" None]
  by (auto simp: BigInt_255 redeemSelector_def toHex.simps hexDigit_def replicate_numeral)

subsection \<open>A missing parameter\<close>

text \<open>
  Claim C4. When the amount is absent (or empty) for deposit or unstake, or the request
  id is absent (or empty) for redeem, the handler returns the error text of the
  validation and hands nothing to the wallet client: the list of submissions is empty.
\<close>

theorem missing_parameter_rejected:
  assumes "((operation = Deposit \<or> operation = Unstake) \<and> \<not> truthy amount)
         \<or> (operation = Redeem \<and> \<not> truthy requestId)"
  shows "aprioriMonStake conv sendTransaction senderAddress operation amount requestId
     = (if operation = Redeem then ''Error: Request ID is required for redeem operation.''
        else ''Error: Amount is required for '' @ operationStr operation @ '' operation.'', [])"
  using assms by (auto simp: aprioriMonStake_def)

text \<open>The three operations, each without its parameter.\<close>

theorem missing_parameter_rejected_witness:
  "aprioriMonStake (\<lambda>a d. Inl ''unused'') (\<lambda>rq. Inr ''0xabc'') ''0x1111111111111111111111111111111111111111'' Deposit None (Some ''7'')
     = (''Error: Amount is required for deposit operation.'', [])
   \<and> aprioriMonStake (\<lambda>a d. Inl ''unused'') (\<lambda>rq. Inr ''0xabc'') ''0x1111111111111111111111111111111111111111'' Unstake (Some []) None
     = (''Error: Amount is required for unstake operation.'', [])
   \<and> aprioriMonStake (\<lambda>a d. Inl ''unused'') (\<lambda>rq. Inr ''0xabc'') ''0x1111111111111111111111111111111111111111'' Redeem (Some ''1'') None
     = (''Error: Request ID is required for redeem operation.'', [])"
  using missing_parameter_rejected [of Deposit None "Some ''7''" "\<lambda>a d. Inl ''unused''" "\<lambda>rq. Inr ''0xabc''" "''0x1111111111111111111111111111111111111111''"]
    missing_parameter_rejected [of Unstake "Some []" None "\<lambda>a d. Inl ''unused''" "\<lambda>rq. Inr ''0xabc''" "''0x1111111111111111111111111111111111111111''"]
    missing_parameter_rejected [of Redeem "Some ''1''" None "\<lambda>a d. Inl ''unused''" "\<lambda>rq. Inr ''0xabc''" "''0x1111111111111111111111111111111111111111''"]
  by (simp add: truthy_def)

subsection \<open>A request id out of range\<close>

text \<open>
  Claim C5, as amended. The handler has no check on the range of the request id. For a
  redeem call whose request id converts to a negative integer or to one of \<open>2 ^ 256\<close>
  or more, it builds the fourth word by padding the signed hexadecimal rendering, hands
  the data to the wallet client in exactly one submission, and reports what the wallet
  client answers: the failure text when the submission throws, the success text
  otherwise. The fourth word is malformed: it is not a run of 64 hexadecimal digits.
\<close>

theorem invalid_requestId_submitted:
  assumes "r \<noteq> []" and "BigInt r = Inr v" and "v < 0 \<or> 2 ^ 256 \<le> v"
  shows "\<exists>rq w. aprioriMonStake conv sendTransaction senderAddress Redeem amount (Some r)
             = (case sendTransaction rq of
                  Inl e \<Rightarrow> ''Apriori redeem failed: '' @ e
                | Inr hash \<Rightarrow> ''Redeem operation successful: Redeemed MON for request id '' @ r
                               @ ''. Tx: '' @ EXPLORER_URL @ hash,
                [rq])
           \<and> rq_to rq = contractAddress
           \<and> rq_data rq = redeemSelector @ padStart 64 CHR ''0'' ''40''
                @ padStart 64 CHR ''0'' (slice 2 senderAddress)
                @ padStart 64 CHR ''0'' ''01'' @ w
           \<and> w = padStart 64 CHR ''0'' (toString16 v)
           \<and> \<not> (length w = 64 \<and> list_all (isDigitOf 16) w)"
proof -
  define w where "w = padStart 64 CHR ''0'' (toString16 v)"
  define rq where "rq = \<lparr>rq_to = contractAddress,
                  rq_data = redeemSelector @ padStart 64 CHR ''0'' ''40''
                    @ padStart 64 CHR ''0'' (slice 2 senderAddress)
                    @ padStart 64 CHR ''0'' ''01'' @ w,
                  rq_value = 0, rq_gas = gasLimitClaim\<rparr>"
  have s: "aprioriMonStake conv sendTransaction senderAddress Redeem amount (Some r)
             = (case sendTransaction rq of
                  Inl e \<Rightarrow> ''Apriori redeem failed: '' @ e
                | Inr hash \<Rightarrow> ''Redeem operation successful: Redeemed MON for request id '' @ r
                               @ ''. Tx: '' @ EXPLORER_URL @ hash,
                [rq])"
    by (simp add: redeem_submits [OF assms(1,2)] Let_def rq_def w_def)
  have bad: "\<not> (length w = 64 \<and> list_all (isDigitOf 16) w)"
  proof (cases "v < 0")
    case True
    then have "CHR ''-'' \<in> set w" by (simp add: w_def padStart_def toString16_def)
    moreover have "\<not> isDigitOf 16 CHR ''-''" by (simp add: isDigitOf_def digitVal_def)
    ultimately show ?thesis by (auto simp: list_all_iff)
  next
    case False
    with assms(3) have "(16::nat) ^ 64 \<le> nat v" by (simp add: le_nat_iff)
    then have "64 < length (toHex (nat v))" by (rule toHex_length_gt)
    with False show ?thesis by (simp add: w_def length_padStart toString16_def)
  qed
  show ?thesis
    by (intro exI [of _ rq] exI [of _ w] conjI s bad) (simp_all add: rq_def w_def)
qed

text \<open>The request id \<open>2 ^ 260\<close> with a wallet client that rejects the submission.\<close>

theorem invalid_requestId_submitted_witness:
  "fst (aprioriMonStake (\<lambda>a d. Inl ''unused'') (\<lambda>rq. Inl ''rejected'') ''0x1111111111111111111111111111111111111111'' Redeem None
       (Some ''1852673427797059126777135760139006525652319754650249024631321344126610074238976'')) = ''Apriori redeem failed: rejected''
   \<and> map (\<lambda>rq. (rq_to rq, rq_data rq))
        (snd (aprioriMonStake (\<lambda>a d. Inl ''unused'') (\<lambda>rq. Inl ''rejected'') ''0x1111111111111111111111111111111111111111'' Redeem None
       (Some ''1852673427797059126777135760139006525652319754650249024631321344126610074238976'')))
     = [(''0xb2f82D0f38dc453D596Ad40A37799446Cc89274A'',
         ''0x492e47d2'' @ ''0000000000000000000000000000000000000000000000000000000000000040'' @ ''0000000000000000000000001111111111111111111111111111111111111111'' @ ''0000000000000000000000000000000000000000000000000000000000000001''
             @ ''100000000000000000000000000000000000000000000000000000000000000000'')]"
proof -
  have b: "BigInt ''1852673427797059126777135760139006525652319754650249024631321344126610074238976'' = Inr 1852673427797059126777135760139006525652319754650249024631321344126610074238976"
    by (simp add: BigInt_def StringToBigInt_def trim_def isWhiteSpace_def parseDigits_def
        isDigitOf_def digitVal_def digitsValue_def)
  have t: "toString16 1852673427797059126777135760139006525652319754650249024631321344126610074238976 = ''100000000000000000000000000000000000000000000000000000000000000000''"
    by (simp add: toString16_def toHex.simps hexDigit_def)
  from invalid_requestId_submitted [OF _ b, of "\<lambda>a d. Inl ''unused''" "\<lambda>rq. Inl ''rejected''"
      "''0x1111111111111111111111111111111111111111''" None]
  show ?thesis
    by (auto simp: t padStart_def slice_def redeemSelector_def contractAddress_def gasLimitClaim_def
        replicate_numeral)
qed

text \<open>
  Claim C5 as stated fails: for the request id \<open>-1\<close> the handler submits a call whose
  last word ends in \<open>-1\<close>. With a wallet client that answers, it reports success; with
  one that throws, the text is the message of the wallet client, after the submission.
\<close>

theorem invalid_requestId_counterexample:
  "BigInt ''-1'' = Inr (- 1)
   \<and> aprioriMonStake (\<lambda>a d. Inl ''unused'') (\<lambda>rq. Inr ''0xabc'') ''0x1111111111111111111111111111111111111111'' Redeem None (Some ''-1'')
     = (''Redeem operation successful: Redeemed MON for request id -1. Tx: https://testnet.monadexplorer.com/tx/0xabc'',
        [\<lparr>rq_to = ''0xb2f82D0f38dc453D596Ad40A37799446Cc89274A'',
          rq_data = ''0x492e47d2'' @ ''0000000000000000000000000000000000000000000000000000000000000040'' @ ''0000000000000000000000001111111111111111111111111111111111111111'' @ ''0000000000000000000000000000000000000000000000000000000000000001'' @ ''00000000000000000000000000000000000000000000000000000000000000-1'',
          rq_value = 0, rq_gas = 800000\<rparr>])
   \<and> aprioriMonStake (\<lambda>a d. Inl ''unused'') (\<lambda>rq. Inl ''rejected'') ''0x1111111111111111111111111111111111111111'' Redeem None (Some ''-1'')
     = (''Apriori redeem failed: rejected'',
        [\<lparr>rq_to = ''0xb2f82D0f38dc453D596Ad40A37799446Cc89274A'',
          rq_data = ''0x492e47d2'' @ ''0000000000000000000000000000000000000000000000000000000000000040'' @ ''0000000000000000000000001111111111111111111111111111111111111111'' @ ''0000000000000000000000000000000000000000000000000000000000000001'' @ ''00000000000000000000000000000000000000000000000000000000000000-1'',
          rq_value = 0, rq_gas = 800000\<rparr>])"
  by (simp add: redeem_submits [OF _ BigInt_minus_1] BigInt_minus_1 toString16_minus_1 Let_def
      padStart_def slice_def redeemSelector_def contractAddress_def gasLimitClaim_def
      EXPLORER_URL_def replicate_numeral)

section \<open>The walk of the history tool\<close>

subsection \<open>What the inner loop keeps\<close>

lemma processTransactions_keeps:
  "currentBlock (snd (processTransactions client fa limit blk txs st)) = currentBlock st"
proof (induction txs arbitrary: st)
  case Nil
  show ?case by simp
next
  case (Cons tx txs)
  show ?case
    by (simp add: Cons.IH Let_def split: sum.splits)
qed

lemma processTransactions_dedup:
  assumes "distinct (map act_hash (transactions st))"
    and "act_hash ` set (transactions st) \<subseteq> processed st"
  shows "distinct (map act_hash (transactions (snd (processTransactions client fa limit blk txs st))))
       \<and> act_hash ` set (transactions (snd (processTransactions client fa limit blk txs st)))
           \<subseteq> processed (snd (processTransactions client fa limit blk txs st))"
  using assms
proof (induction txs arbitrary: st)
  case Nil
  then show ?case by simp
next
  case (Cons tx txs)
  show ?case
  proof (cases "tx_hash tx \<in> processed st \<or> limit \<le> of_nat (length (transactions st))")
    case True
    with Cons show ?thesis by simp
  next
    case skip: False
    show ?thesis
    proof (cases "toLowerCase (tx_from tx) = fa
        \<or> (if truthy (tx_to tx) then map_option toLowerCase (tx_to tx) else None) = Some fa")
      case False
      with skip Cons show ?thesis by (simp add: Let_def)
    next
      case match: True
      show ?thesis
      proof (cases "getTransactionReceipt client (length (effects st)) (tx_hash tx)")
        case (Inl e)
        with skip match Cons.prems show ?thesis by (simp add: Let_def)
      next
        case (Inr receipt)
        define st' where "st' = st\<lparr>effects := effects st @ [GetTransactionReceipt (tx_hash tx)],
            transactions := transactions st @
              [\<lparr>act_hash = tx_hash tx, act_blockNumber = blk_number blk, act_from = tx_from tx,
                act_to = tx_to tx, act_value = tx_value tx,
                act_timestamp = blk_timestamp blk * 1000, act_status = rc_status receipt,
                act_gasUsed = (if rc_gasUsed receipt \<noteq> 0 then Some (rc_gasUsed receipt) else None)\<rparr>],
            processed := insert (tx_hash tx) (processed st)\<rparr>"
        have step: "processTransactions client fa limit blk (tx # txs) st
            = processTransactions client fa limit blk txs st'"
          using skip match Inr by (simp add: Let_def st'_def)
        from skip Cons.prems have "distinct (map act_hash (transactions st'))"
          and "act_hash ` set (transactions st') \<subseteq> processed st'"
          by (auto simp: st'_def)
        then show ?thesis
          unfolding step by (rule Cons.IH)
      qed
    qed
  qed
qed

lemma historyStep_dedup:
  assumes "distinct (map act_hash (transactions st))"
    and "act_hash ` set (transactions st) \<subseteq> processed st"
  shows "distinct (map act_hash (transactions (historyStep client fa limit st)))
       \<and> act_hash ` set (transactions (historyStep client fa limit st))
           \<subseteq> processed (historyStep client fa limit st)"
proof (cases "getBlock client (length (effects st)) (currentBlock st) True")
  case (Inl e)
  with assms show ?thesis by (simp add: historyStep_def Let_def)
next
  case (Inr blk)
  define st1 where "st1 = st\<lparr>effects := effects st @ [GetBlock (currentBlock st) True]\<rparr>"
  obtain r st2 where p: "processTransactions client fa limit blk (blk_transactions blk) st1 = (r, st2)"
    by (cases "processTransactions client fa limit blk (blk_transactions blk) st1") blast
  from assms have "distinct (map act_hash (transactions st1))"
    and "act_hash ` set (transactions st1) \<subseteq> processed st1"
    by (simp_all add: st1_def)
  from processTransactions_dedup [OF this, of client fa limit blk "blk_transactions blk"] p
  have inv: "distinct (map act_hash (transactions st2))"
    "act_hash ` set (transactions st2) \<subseteq> processed st2"
    by simp_all
  show ?thesis
  proof (cases r)
    case None
    with Inr p inv show ?thesis
      by (simp add: historyStep_def Let_def st1_def [symmetric])
  next
    case (Some e)
    with Inr p inv show ?thesis
      by (simp add: historyStep_def Let_def st1_def [symmetric])
  qed
qed

lemma historyLoop_continue:
  assumes "i < blocksToSearch \<and> of_nat (length (transactions st)) < limit"
  shows "historyLoop client fa limit i st
     = historyLoop client fa limit (Suc i) (historyStep client fa limit st)"
  using assms by (subst historyLoop.simps) simp

lemma historyLoop_stop:
  assumes "\<not> (i < blocksToSearch \<and> of_nat (length (transactions st)) < limit)"
  shows "historyLoop client fa limit i st = (i, st)"
  by (subst historyLoop.simps) (simp only: assms if_False)

lemma historyLoop_dedup:
  assumes "distinct (map act_hash (transactions st))"
    and "act_hash ` set (transactions st) \<subseteq> processed st"
  shows "distinct (map act_hash (transactions (snd (historyLoop client fa limit i st))))
       \<and> act_hash ` set (transactions (snd (historyLoop client fa limit i st)))
           \<subseteq> processed (snd (historyLoop client fa limit i st))"
  using assms
proof (induction client fa limit i st rule: historyLoop.induct)
  case (1 client fa limit i st)
  show ?case
  proof (cases "i < blocksToSearch \<and> of_nat (length (transactions st)) < limit")
    case True
    from historyStep_dedup [OF "1.prems", of client fa limit]
    have "distinct (map act_hash (transactions (historyStep client fa limit st)))"
      and "act_hash ` set (transactions (historyStep client fa limit st))
           \<subseteq> processed (historyStep client fa limit st)"
      by simp_all
    from "1.IH" [OF True this] show ?thesis
      by (simp only: historyLoop_continue [OF True])
  next
    case False
    with "1.prems" show ?thesis
      by (simp only: historyLoop_stop [OF False] snd_conv)
  qed
qed

lemma exampleChain_history_2:
  "accountTransactionHistory exampleChain ''0xAb'' 2 =
    (HistoryReport 7
      [\<lparr>act_hash = ''0xa'', act_blockNumber = 100, act_from = ''0xAB'',
          act_to = Some ''0xab'', act_value = 1,
          act_timestamp = 1700000000000, act_status = ''success'',
          act_gasUsed = Some 21000\<rparr>,
       \<lparr>act_hash = ''0xb'', act_blockNumber = 100, act_from = ''0xcd'',
          act_to = Some ''0xAB'', act_value = 2,
          act_timestamp = 1700000000000, act_status = ''success'',
          act_gasUsed = Some 21000\<rparr>],
     [GetTransactionCount ''0xAb'', GetBlockNumber, GetBlock 100 True,
      GetTransactionReceipt ''0xa'', GetTransactionReceipt ''0xb''])"
  by code_simp

subsection \<open>No hash twice\<close>

text \<open>
  Claim C6. Whenever the history tool returns a report, no two of its records carry the
  same transaction hash, whatever the chain client answers: a transaction listed twice,
  or found in several blocks, or sent by the address to itself, is recorded once.
\<close>

theorem history_hashes_distinct:
  assumes "accountTransactionHistory client address limit = (HistoryReport sentTxs records, es)"
  shows "distinct (map act_hash records)"
proof -
  from assms obtain latestBlock where
    "records = transactions (snd (historyLoop client (toLowerCase address) limit 0
        (historyStart address latestBlock)))"
    by (auto simp: accountTransactionHistory_def Let_def split: sum.splits)
  moreover have "distinct (map act_hash (transactions (snd (historyLoop client
        (toLowerCase address) limit 0 (historyStart address latestBlock)))))"
    using historyLoop_dedup [of "historyStart address latestBlock" client "toLowerCase address" limit 0]
    by (simp add: historyStart_def)
  ultimately show ?thesis by simp
qed

text \<open>
  On the example chain the head block lists the self-transfer \<open>0xa\<close> twice, and the
  address is both its sender and its recipient; the report holds it once.
\<close>

theorem history_hashes_distinct_witness:
  "map tx_hash [txA, txA, txB] = [''0xa'', ''0xa'', ''0xb'']
   \<and> toLowerCase (tx_from txA) = toLowerCase ''0xAb''
   \<and> map_option toLowerCase (tx_to txA) = Some (toLowerCase ''0xAb'')
   \<and> distinct (map act_hash
        [\<lparr>act_hash = ''0xa'', act_blockNumber = 100, act_from = ''0xAB'',
          act_to = Some ''0xab'', act_value = 1,
          act_timestamp = 1700000000000, act_status = ''success'',
          act_gasUsed = Some 21000\<rparr>,
         \<lparr>act_hash = ''0xb'', act_blockNumber = 100, act_from = ''0xcd'',
          act_to = Some ''0xAB'', act_value = 2,
          act_timestamp = 1700000000000, act_status = ''success'',
          act_gasUsed = Some 21000\<rparr>])"
proof -
  have "map tx_hash [txA, txA, txB] = [''0xa'', ''0xa'', ''0xb'']"
    and "toLowerCase (tx_from txA) = toLowerCase ''0xAb''"
    and "map_option toLowerCase (tx_to txA) = Some (toLowerCase ''0xAb'')"
    by code_simp+
  with history_hashes_distinct [OF exampleChain_history_2] show ?thesis by blast
qed

subsection \<open>What one block adds\<close>

lemma blockRequests_append:
  "blockRequests f (es @ es') = blockRequests f es @ blockRequests f es'"
  by (induction f es rule: blockRequests.induct) simp_all

lemma processTransactions_extends:
  "\<exists>new es. transactions (snd (processTransactions client fa limit blk txs st))
               = transactions st @ new
           \<and> effects (snd (processTransactions client fa limit blk txs st)) = effects st @ es
           \<and> blockRequests f es = []
           \<and> consoleErrors es = []"
proof (induction txs arbitrary: st)
  case Nil
  show ?case by simp
next
  case (Cons tx txs)
  show ?case
  proof (cases "tx_hash tx \<in> processed st \<or> limit \<le> of_nat (length (transactions st))")
    case True
    with Cons [of st] show ?thesis by simp
  next
    case skip: False
    show ?thesis
    proof (cases "toLowerCase (tx_from tx) = fa
        \<or> (if truthy (tx_to tx) then map_option toLowerCase (tx_to tx) else None) = Some fa")
      case False
      with skip Cons [of st] show ?thesis by (simp add: Let_def)
    next
      case match: True
      show ?thesis
      proof (cases "getTransactionReceipt client (length (effects st)) (tx_hash tx)")
        case (Inl e)
        with skip match show ?thesis by (simp add: Let_def)
      next
        case (Inr receipt)
        define st' where "st' = st\<lparr>effects := effects st @ [GetTransactionReceipt (tx_hash tx)],
            transactions := transactions st @
              [\<lparr>act_hash = tx_hash tx, act_blockNumber = blk_number blk, act_from = tx_from tx,
                act_to = tx_to tx, act_value = tx_value tx,
                act_timestamp = blk_timestamp blk * 1000, act_status = rc_status receipt,
                act_gasUsed = (if rc_gasUsed receipt \<noteq> 0 then Some (rc_gasUsed receipt) else None)\<rparr>],
            processed := insert (tx_hash tx) (processed st)\<rparr>"
        have step: "processTransactions client fa limit blk (tx # txs) st
            = processTransactions client fa limit blk txs st'"
          using skip match Inr by (simp add: Let_def st'_def)
        from Cons [of st'] obtain new es where
          "transactions (snd (processTransactions client fa limit blk txs st')) = transactions st' @ new"
          "effects (snd (processTransactions client fa limit blk txs st')) = effects st' @ es"
          "blockRequests f es = []" "consoleErrors es = []"
          by blast
        then show ?thesis
          unfolding step by (simp add: st'_def)
      qed
    qed
  qed
qed

lemma processTransactions_bounded:
  assumes "of_nat (length (transactions st)) < max limit 0 + 1"
  shows "of_nat (length (transactions (snd (processTransactions client fa limit blk txs st))))
           < max limit 0 + 1"
  using assms
proof (induction txs arbitrary: st)
  case Nil
  then show ?case by simp
next
  case (Cons tx txs)
  show ?case
  proof (cases "tx_hash tx \<in> processed st \<or> limit \<le> of_nat (length (transactions st))")
    case True
    with Cons show ?thesis by simp
  next
    case skip: False
    show ?thesis
    proof (cases "toLowerCase (tx_from tx) = fa
        \<or> (if truthy (tx_to tx) then map_option toLowerCase (tx_to tx) else None) = Some fa")
      case False
      with skip Cons show ?thesis by (simp add: Let_def)
    next
      case match: True
      show ?thesis
      proof (cases "getTransactionReceipt client (length (effects st)) (tx_hash tx)")
        case (Inl e)
        with skip match Cons.prems show ?thesis by (simp add: Let_def)
      next
        case (Inr receipt)
        define st' where "st' = st\<lparr>effects := effects st @ [GetTransactionReceipt (tx_hash tx)],
            transactions := transactions st @
              [\<lparr>act_hash = tx_hash tx, act_blockNumber = blk_number blk, act_from = tx_from tx,
                act_to = tx_to tx, act_value = tx_value tx,
                act_timestamp = blk_timestamp blk * 1000, act_status = rc_status receipt,
                act_gasUsed = (if rc_gasUsed receipt \<noteq> 0 then Some (rc_gasUsed receipt) else None)\<rparr>],
            processed := insert (tx_hash tx) (processed st)\<rparr>"
        have step: "processTransactions client fa limit blk (tx # txs) st
            = processTransactions client fa limit blk txs st'"
          using skip match Inr by (simp add: Let_def st'_def)
        from skip have "of_nat (length (transactions st')) < max limit 0 + 1"
          by (simp add: st'_def max_def)
        then show ?thesis
          unfolding step by (rule Cons.IH)
      qed
    qed
  qed
qed

lemma historyStep_block_failure:
  assumes "getBlock client (length (effects st)) (currentBlock st) True = Inl e"
  shows "historyStep client fa limit st
     = st\<lparr>effects := effects st @ [GetBlock (currentBlock st) True, ConsoleError e],
          currentBlock := currentBlock st - 1\<rparr>"
  using assms by (simp add: historyStep_def Let_def)

lemma historyStep_receipt_failure:
  assumes "getBlock client (length (effects st)) (currentBlock st) True = Inr blk"
    and "processTransactions client fa limit blk (blk_transactions blk)
           (st\<lparr>effects := effects st @ [GetBlock (currentBlock st) True]\<rparr>) = (Some e, st2)"
  shows "historyStep client fa limit st
     = st2\<lparr>effects := effects st2 @ [ConsoleError e], currentBlock := currentBlock st - 1\<rparr>"
proof -
  from processTransactions_keeps [of client fa limit blk "blk_transactions blk"
      "st\<lparr>effects := effects st @ [GetBlock (currentBlock st) True]\<rparr>"] assms(2)
  have "currentBlock st2 = currentBlock st" by simp
  with assms show ?thesis by (simp add: historyStep_def Let_def)
qed

lemma historyStep_extends:
  "currentBlock (historyStep client fa limit st) = currentBlock st - 1
   \<and> (\<exists>new es. transactions (historyStep client fa limit st) = transactions st @ new
         \<and> effects (historyStep client fa limit st)
             = effects st @ GetBlock (currentBlock st) True # es
         \<and> blockRequests f es = [])"
proof (cases "getBlock client (length (effects st)) (currentBlock st) True")
  case (Inl e)
  then show ?thesis by (simp add: historyStep_block_failure)
next
  case (Inr blk)
  define st1 where "st1 = st\<lparr>effects := effects st @ [GetBlock (currentBlock st) True]\<rparr>"
  obtain r st2 where p: "processTransactions client fa limit blk (blk_transactions blk) st1 = (r, st2)"
    by (cases "processTransactions client fa limit blk (blk_transactions blk) st1") blast
  from processTransactions_extends [of client fa limit blk "blk_transactions blk" st1 f] p
  obtain new es where n: "transactions st2 = transactions st @ new"
    and e: "effects st2 = effects st @ GetBlock (currentBlock st) True # es"
    and b: "blockRequests f es = []"
    by (auto simp: st1_def)
  from processTransactions_keeps [of client fa limit blk "blk_transactions blk" st1] p
  have c: "currentBlock st2 = currentBlock st" by (simp add: st1_def)
  show ?thesis
  proof (cases r)
    case None
    with Inr p n e b c show ?thesis
      by (simp add: historyStep_def Let_def st1_def [symmetric])
  next
    case (Some m)
    with Inr p n e b c show ?thesis
      by (simp add: historyStep_def Let_def st1_def [symmetric] blockRequests_append)
  qed
qed

lemma historyStep_bounded:
  assumes "of_nat (length (transactions st)) < max limit 0 + 1"
  shows "of_nat (length (transactions (historyStep client fa limit st))) < max limit 0 + 1"
proof (cases "getBlock client (length (effects st)) (currentBlock st) True")
  case (Inl e)
  with assms show ?thesis by (simp add: historyStep_block_failure)
next
  case (Inr blk)
  define st1 where "st1 = st\<lparr>effects := effects st @ [GetBlock (currentBlock st) True]\<rparr>"
  obtain r st2 where p: "processTransactions client fa limit blk (blk_transactions blk) st1 = (r, st2)"
    by (cases "processTransactions client fa limit blk (blk_transactions blk) st1") blast
  from assms have "of_nat (length (transactions st1)) < max limit 0 + 1"
    by (simp add: st1_def)
  from processTransactions_bounded [OF this, of client fa blk "blk_transactions blk"] p
  have "of_nat (length (transactions st2)) < max limit 0 + 1" by simp
  with Inr p show ?thesis
    by (cases r) (simp_all add: historyStep_def Let_def st1_def [symmetric])
qed

subsection \<open>The walk as an iteration of the step\<close>

lemma historySteps_facts:
  "currentBlock ((historyStep client fa limit ^^ n) st) = currentBlock st - int n
   \<and> (\<exists>new. transactions ((historyStep client fa limit ^^ n) st) = transactions st @ new)
   \<and> blockRequests f (effects ((historyStep client fa limit ^^ n) st))
       = blockRequests f (effects st)
           @ (if f then map (\<lambda>k. currentBlock st - int k) [0..<n] else [])"
proof (induction n)
  case 0
  show ?case by simp
next
  case (Suc n)
  define s where "s = (historyStep client fa limit ^^ n) st"
  from historyStep_extends [of client fa limit s f] obtain new es where
    "currentBlock (historyStep client fa limit s) = currentBlock s - 1"
    "transactions (historyStep client fa limit s) = transactions s @ new"
    "effects (historyStep client fa limit s) = effects s @ GetBlock (currentBlock s) True # es"
    "blockRequests f es = []"
    by blast
  with Suc show ?case
    by (auto simp: s_def [symmetric] blockRequests_append)
qed

lemma historySteps_bounded:
  assumes "of_nat (length (transactions st)) < max limit 0 + 1"
  shows "of_nat (length (transactions ((historyStep client fa limit ^^ n) st))) < max limit 0 + 1"
  using assms by (induction n) (simp_all add: historyStep_bounded)

lemma historyLoop_iterates:
  assumes "i \<le> blocksToSearch"
  shows "\<exists>n. i + n \<le> blocksToSearch
     \<and> historyLoop client fa limit i st = (i + n, (historyStep client fa limit ^^ n) st)
     \<and> (i + n = blocksToSearch
          \<or> limit \<le> of_nat (length (transactions ((historyStep client fa limit ^^ n) st))))
     \<and> (\<forall>m<n. of_nat (length (transactions ((historyStep client fa limit ^^ m) st))) < limit)"
  using assms
proof (induction client fa limit i st rule: historyLoop.induct)
  case (1 client fa limit i st)
  show ?case
  proof (cases "i < blocksToSearch \<and> of_nat (length (transactions st)) < limit")
    case False
    with "1.prems" have "i + 0 \<le> blocksToSearch
      \<and> historyLoop client fa limit i st = (i + 0, (historyStep client fa limit ^^ 0) st)
      \<and> (i + 0 = blocksToSearch
          \<or> limit \<le> of_nat (length (transactions ((historyStep client fa limit ^^ 0) st))))
      \<and> (\<forall>m<0. of_nat (length (transactions ((historyStep client fa limit ^^ m) st))) < limit)"
      by (auto simp: historyLoop_stop [OF False])
    then show ?thesis by (rule exI)
  next
    case True
    then have "Suc i \<le> blocksToSearch" by simp
    from "1.IH" [OF True this] obtain n where n: "Suc i + n \<le> blocksToSearch"
      "historyLoop client fa limit (Suc i) (historyStep client fa limit st)
         = (Suc i + n, (historyStep client fa limit ^^ n) (historyStep client fa limit st))"
      "Suc i + n = blocksToSearch
          \<or> limit \<le> of_nat (length (transactions
               ((historyStep client fa limit ^^ n) (historyStep client fa limit st))))"
      "\<forall>m<n. of_nat (length (transactions
               ((historyStep client fa limit ^^ m) (historyStep client fa limit st)))) < limit"
      by blast
    have sw: "\<And>k. (historyStep client fa limit ^^ k) (historyStep client fa limit st)
        = (historyStep client fa limit ^^ Suc k) st"
      by (simp add: funpow_swap1)
    have "\<forall>m<Suc n. of_nat (length (transactions ((historyStep client fa limit ^^ m) st))) < limit"
    proof (intro allI impI)
      fix m assume "m < Suc n"
      show "of_nat (length (transactions ((historyStep client fa limit ^^ m) st))) < limit"
      proof (cases m)
        case 0
        with True show ?thesis by simp
      next
        case (Suc k)
        with \<open>m < Suc n\<close> n(4) have "of_nat (length (transactions
               ((historyStep client fa limit ^^ k) (historyStep client fa limit st)))) < limit"
          by simp
        with Suc show ?thesis by (simp only: sw)
      qed
    qed
    with n(1,2,3) have "i + Suc n \<le> blocksToSearch
      \<and> historyLoop client fa limit i st = (i + Suc n, (historyStep client fa limit ^^ Suc n) st)
      \<and> (i + Suc n = blocksToSearch
          \<or> limit \<le> of_nat (length (transactions ((historyStep client fa limit ^^ Suc n) st))))
      \<and> (\<forall>m<Suc n. of_nat (length (transactions ((historyStep client fa limit ^^ m) st))) < limit)"
      by (simp only: historyLoop_continue [OF True] sw) simp
    then show ?thesis by (rule exI)
  qed
qed

lemma exampleChain_history_10:
  "accountTransactionHistory exampleChain ''0xAb'' 10 =
    (HistoryReport 7
      [\<lparr>act_hash = ''0xa'', act_blockNumber = 100, act_from = ''0xAB'',
          act_to = Some ''0xab'', act_value = 1,
          act_timestamp = 1700000000000, act_status = ''success'',
          act_gasUsed = Some 21000\<rparr>,
       \<lparr>act_hash = ''0xb'', act_blockNumber = 100, act_from = ''0xcd'',
          act_to = Some ''0xAB'', act_value = 2,
          act_timestamp = 1700000000000, act_status = ''success'',
          act_gasUsed = Some 21000\<rparr>],
     [GetTransactionCount ''0xAb'', GetBlockNumber, GetBlock 100 True,
      GetTransactionReceipt ''0xa'', GetTransactionReceipt ''0xb'',
      GetBlock 99 True, ConsoleError ''block not found'', GetBlock 98 True,
      GetTransactionReceipt ''0xc'', ConsoleError ''receipt not found'',
      GetBlock 97 True, GetBlock 96 True, GetBlock 95 True,
      GetBlock 94 True, GetBlock 93 True, GetBlock 92 True,
      GetBlock 91 True])"
  by code_simp

subsection \<open>Where the walk stops\<close>

text \<open>
  Claim C9. With a limit of zero (or below) the history tool requests no block at all,
  whatever the client answers; when the nonce and the head of the chain are answered it
  returns a report without records, having made those two requests only. In general,
  when the two requests are answered, the call is \<open>n\<close> rounds of the loop body from
  the start state, for some \<open>n\<close> of at most 10: it stops after the tenth round or with
  the limit reached, whichever comes first, since before each of the \<open>n\<close> rounds the
  number of records was below the limit. The blocks requested are the \<open>n\<close> blocks
  from the head downwards, each once and with its transactions, and the number of
  records stays below \<open>max limit 0 + 1\<close>.
\<close>

theorem history_walk_stops:
  "(limit \<le> 0 \<longrightarrow> blockRequests f (snd (accountTransactionHistory client address limit)) = [])
   \<and> (getTransactionCount client 0 address = Inr sentTxs
        \<and> getBlockNumber client 1 = Inr latestBlock \<longrightarrow>
      (limit \<le> 0 \<longrightarrow> accountTransactionHistory client address limit
          = (HistoryReport sentTxs [], [GetTransactionCount address, GetBlockNumber]))
      \<and> (\<exists>n st. n \<le> 10
          \<and> st = (historyStep client (toLowerCase address) limit ^^ n)
                   (historyStart address latestBlock)
          \<and> accountTransactionHistory client address limit
               = (HistoryReport sentTxs (transactions st), effects st)
          \<and> (n = 10 \<or> limit \<le> of_nat (length (transactions st)))
          \<and> (\<forall>m<n. of_nat (length (transactions
                 ((historyStep client (toLowerCase address) limit ^^ m)
                    (historyStart address latestBlock)))) < limit)
          \<and> blockRequests True (effects st) = map (\<lambda>k. latestBlock - int k) [0..<n]
          \<and> blockRequests False (effects st) = []
          \<and> of_nat (length (transactions st)) < max limit 0 + 1))"
proof (intro conjI impI)
  assume l: "limit \<le> 0"
  then have stop: "\<And>st. transactions st = [] \<Longrightarrow>
      historyLoop client (toLowerCase address) limit 0 st = (0, st)"
    by (subst historyLoop.simps) simp
  show "blockRequests f (snd (accountTransactionHistory client address limit)) = []"
    by (simp add: accountTransactionHistory_def Let_def stop historyStart_def split: sum.splits)
next
  assume a: "getTransactionCount client 0 address = Inr sentTxs
        \<and> getBlockNumber client 1 = Inr latestBlock"
  assume l: "limit \<le> 0"
  then have stop: "\<And>st. transactions st = [] \<Longrightarrow>
      historyLoop client (toLowerCase address) limit 0 st = (0, st)"
    by (subst historyLoop.simps) simp
  from a show "accountTransactionHistory client address limit
          = (HistoryReport sentTxs [], [GetTransactionCount address, GetBlockNumber])"
    by (simp add: accountTransactionHistory_def Let_def stop historyStart_def)
next
  assume a: "getTransactionCount client 0 address = Inr sentTxs
        \<and> getBlockNumber client 1 = Inr latestBlock"
  define st0 where "st0 = historyStart address latestBlock"
  define fa where "fa = toLowerCase address"
  from historyLoop_iterates [where i = 0 and client = client and fa = fa and limit = limit
      and st = st0] obtain n where n: "n \<le> 10"
    "historyLoop client fa limit 0 st0 = (n, (historyStep client fa limit ^^ n) st0)"
    "n = 10 \<or> limit \<le> of_nat (length (transactions ((historyStep client fa limit ^^ n) st0)))"
    "\<forall>m<n. of_nat (length (transactions ((historyStep client fa limit ^^ m) st0))) < limit"
    by (auto simp: blocksToSearch_def)
  define st where "st = (historyStep client fa limit ^^ n) st0"
  have r: "accountTransactionHistory client address limit
               = (HistoryReport sentTxs (transactions st), effects st)"
    using a n(2)
    by (simp add: accountTransactionHistory_def Let_def st_def st0_def fa_def)
  have b: "blockRequests True (effects st) = map (\<lambda>k. latestBlock - int k) [0..<n]"
    "blockRequests False (effects st) = []"
    using historySteps_facts [where client = client and fa = fa and limit = limit and n = n
        and st = st0 and f = True]
      historySteps_facts [where client = client and fa = fa and limit = limit and n = n
        and st = st0 and f = False]
    by (simp_all add: st_def st0_def historyStart_def)
  have "of_nat (length (transactions st0)) < max limit 0 + 1"
    by (simp add: st0_def historyStart_def max_def)
  then have c: "of_nat (length (transactions st)) < max limit 0 + 1"
    unfolding st_def by (rule historySteps_bounded)
  from n(1,3,4) r b c
  show "\<exists>n st. n \<le> 10
          \<and> st = (historyStep client (toLowerCase address) limit ^^ n)
                   (historyStart address latestBlock)
          \<and> accountTransactionHistory client address limit
               = (HistoryReport sentTxs (transactions st), effects st)
          \<and> (n = 10 \<or> limit \<le> of_nat (length (transactions st)))
          \<and> (\<forall>m<n. of_nat (length (transactions
                 ((historyStep client (toLowerCase address) limit ^^ m)
                    (historyStart address latestBlock)))) < limit)
          \<and> blockRequests True (effects st) = map (\<lambda>k. latestBlock - int k) [0..<n]
          \<and> blockRequests False (effects st) = []
          \<and> of_nat (length (transactions st)) < max limit 0 + 1"
    unfolding st_def st0_def fa_def by blast
qed

text \<open>
  On the example chain: limit 0 requests no block, limit 2 stops after the head block,
  limit 10 walks ten blocks.
\<close>

theorem history_walk_stops_witness:
  "accountTransactionHistory exampleChain ''0xAb'' 0
     = (HistoryReport 7 [], [GetTransactionCount ''0xAb'', GetBlockNumber])
   \<and> blockRequests True (snd (accountTransactionHistory exampleChain ''0xAb'' 0)) = []
   \<and> blockRequests True (snd (accountTransactionHistory exampleChain ''0xAb'' 2)) = [100]
   \<and> blockRequests True (snd (accountTransactionHistory exampleChain ''0xAb'' 10))
       = [100, 99, 98, 97, 96, 95, 94, 93, 92, 91]"
proof -
  have "getTransactionCount exampleChain 0 ''0xAb'' = Inr 7
        \<and> getBlockNumber exampleChain 1 = Inr 100"
    by (simp add: exampleChain_def)
  with history_walk_stops [of 0 True exampleChain "''0xAb''" 7 100]
  have "accountTransactionHistory exampleChain ''0xAb'' 0
     = (HistoryReport 7 [], [GetTransactionCount ''0xAb'', GetBlockNumber])"
    and "blockRequests True (snd (accountTransactionHistory exampleChain ''0xAb'' 0)) = []"
    by simp_all
  then show ?thesis
    by (simp add: exampleChain_history_2 exampleChain_history_10)
qed

section \<open>The walk of the statistics tool\<close>

lemma addAddresses_superset: "addrs \<subseteq> addAddresses txs addrs"
proof (induction txs arbitrary: addrs)
  case Nil
  show ?case by simp
next
  case (Cons tx txs)
  have "addrs \<subseteq> (case tx_to tx of
          None \<Rightarrow> insert (tx_from tx) addrs
        | Some t \<Rightarrow> if t \<noteq> [] then insert t (insert (tx_from tx) addrs)
                    else insert (tx_from tx) addrs)"
    by (auto split: option.splits)
  also have "\<dots> \<subseteq> addAddresses (tx # txs) addrs"
    by (simp only: addAddresses.simps) (rule Cons.IH)
  finally show ?case .
qed

lemma statsStep_first_failure:
  assumes "getBlock client (length (statEffects st)) (latestBlock - int i) False = Inl e"
  shows "statsStep client latestBlock i st
     = st\<lparr>statEffects := statEffects st @ [GetBlock (latestBlock - int i) False, ConsoleError e]\<rparr>"
  using assms by (simp add: statsStep_def Let_def)

lemma statsStep_second_failure:
  assumes "getBlock client (length (statEffects st)) (latestBlock - int i) False = Inr blockInfo"
    and "getBlock client (Suc (length (statEffects st))) (latestBlock - int i) True = Inl e"
  shows "statsStep client latestBlock i st
     = st\<lparr>statEffects := statEffects st @
          [GetBlock (latestBlock - int i) False, GetBlock (latestBlock - int i) True,
           ConsoleError e]\<rparr>"
  using assms by (simp add: statsStep_def Let_def)

lemma statsStep_success:
  assumes "getBlock client (length (statEffects st)) (latestBlock - int i) False = Inr blockInfo"
    and "getBlock client (Suc (length (statEffects st))) (latestBlock - int i) True = Inr blk"
  shows "statsStep client latestBlock i st
     = st\<lparr>totalTransactions := totalTransactions st + length (blk_transactions blk),
          uniqueAddresses := addAddresses (blk_transactions blk) (uniqueAddresses st),
          statEffects := statEffects st @
            [GetBlock (latestBlock - int i) False, GetBlock (latestBlock - int i) True]\<rparr>"
  using assms by (simp add: statsStep_def Let_def)

lemma statsStep_keeps:
  "totalTransactions st \<le> totalTransactions (statsStep client latestBlock i st)
   \<and> uniqueAddresses st \<subseteq> uniqueAddresses (statsStep client latestBlock i st)
   \<and> blockRequests False (statEffects (statsStep client latestBlock i st))
       = blockRequests False (statEffects st) @ [latestBlock - int i]"
proof (cases "getBlock client (length (statEffects st)) (latestBlock - int i) False")
  case (Inl e)
  then show ?thesis
    by (simp add: statsStep_first_failure blockRequests_append)
next
  case first: (Inr blockInfo)
  show ?thesis
  proof (cases "getBlock client (Suc (length (statEffects st))) (latestBlock - int i) True")
    case (Inl e)
    with first show ?thesis
      by (simp add: statsStep_second_failure blockRequests_append)
  next
    case (Inr blk)
    with first show ?thesis
      by (simp add: statsStep_success blockRequests_append addAddresses_superset)
  qed
qed

lemma of_nat_less_rat_iff: "(of_nat i < (q::rat)) = (i < nat \<lceil>q\<rceil>)"
proof -
  have "(of_nat i < q) = (of_int (int i) < q)" by simp
  also have "\<dots> = (int i < \<lceil>q\<rceil>)" by (simp only: less_ceiling_iff)
  also have "\<dots> = (i < nat \<lceil>q\<rceil>)" by (simp only: zless_nat_eq_int_zless)
  finally show ?thesis .
qed

lemma statsLoop_continue:
  assumes "of_nat i < min blocks 10"
  shows "statsLoop client latestBlock blocks i st
     = statsLoop client latestBlock blocks (Suc i) (statsStep client latestBlock i st)"
  by (subst statsLoop.simps) (simp only: assms if_True)

lemma statsLoop_stop:
  assumes "\<not> of_nat i < min blocks 10"
  shows "statsLoop client latestBlock blocks i st = st"
  by (subst statsLoop.simps) (simp only: assms if_False)

lemma statsLoop_fold:
  "statsLoop client latestBlock blocks i st
     = foldl (\<lambda>s k. statsStep client latestBlock k s) st [i..<nat \<lceil>min blocks 10\<rceil>]"
proof (induction client latestBlock blocks i st rule: statsLoop.induct)
  case (1 client latestBlock blocks i st)
  show ?case
  proof (cases "of_nat i < min blocks 10")
    case True
    then have "i < nat \<lceil>min blocks 10\<rceil>"
      using of_nat_less_rat_iff [of i "min blocks 10"] by blast
    then have "[i..<nat \<lceil>min blocks 10\<rceil>] = i # [Suc i..<nat \<lceil>min blocks 10\<rceil>]"
      by (rule upt_conv_Cons)
    with "1.IH" [OF True] show ?thesis
      by (simp only: statsLoop_continue [OF True] foldl_Cons)
  next
    case False
    then have "\<not> i < nat \<lceil>min blocks 10\<rceil>"
      using of_nat_less_rat_iff [of i "min blocks 10"] by blast
    then have "[i..<nat \<lceil>min blocks 10\<rceil>] = []" by simp
    then show ?thesis
      by (simp only: statsLoop_stop [OF False] foldl_Nil)
  qed
qed

lemma statsFold_keeps:
  "totalTransactions st
     \<le> totalTransactions (foldl (\<lambda>s k. statsStep client latestBlock k s) st [i..<n])
   \<and> uniqueAddresses st
     \<subseteq> uniqueAddresses (foldl (\<lambda>s k. statsStep client latestBlock k s) st [i..<n])
   \<and> blockRequests False (statEffects (foldl (\<lambda>s k. statsStep client latestBlock k s) st [i..<n]))
       = blockRequests False (statEffects st) @ map (\<lambda>k. latestBlock - int k) [i..<n]"
proof (induction n)
  case 0
  show ?case by simp
next
  case (Suc n)
  show ?case
  proof (cases "i \<le> n")
    case False
    then show ?thesis by simp
  next
    case True
    define s where "s = foldl (\<lambda>s k. statsStep client latestBlock k s) st [i..<n]"
    from statsStep_keeps [of s client latestBlock n] Suc True show ?thesis
      by (auto simp: s_def [symmetric])
  qed
qed

lemma statsFold_all_succeed:
  assumes "\<forall>k. i \<le> k \<and> k < n \<longrightarrow>
      (\<exists>blockInfo. getBlock client (1 + 2 * k) (latestBlock - int k) False = Inr blockInfo)
      \<and> getBlock client (2 + 2 * k) (latestBlock - int k) True = Inr (B k)"
    and "length (statEffects st) = 1 + 2 * i"
    and "i \<le> n"
  shows "totalTransactions (foldl (\<lambda>s k. statsStep client latestBlock k s) st [i..<n])
       = totalTransactions st + (\<Sum>k = i..<n. length (blk_transactions (B k)))
     \<and> length (statEffects (foldl (\<lambda>s k. statsStep client latestBlock k s) st [i..<n]))
       = 1 + 2 * n"
  using assms
proof (induction n)
  case 0
  then show ?case by simp
next
  case (Suc n)
  show ?case
  proof (cases "i = Suc n")
    case True
    with Suc.prems show ?thesis by simp
  next
    case False
    with Suc.prems have le: "i \<le> n" by simp
    define s where "s = foldl (\<lambda>s k. statsStep client latestBlock k s) st [i..<n]"
    from Suc.prems(1) have "\<forall>k. i \<le> k \<and> k < n \<longrightarrow>
      (\<exists>blockInfo. getBlock client (1 + 2 * k) (latestBlock - int k) False = Inr blockInfo)
      \<and> getBlock client (2 + 2 * k) (latestBlock - int k) True = Inr (B k)"
      by simp
    from Suc.IH [OF this Suc.prems(2) le]
    have t: "totalTransactions s
        = totalTransactions st + (\<Sum>k = i..<n. length (blk_transactions (B k)))"
      and l: "length (statEffects s) = 1 + 2 * n"
      by (simp_all add: s_def)
    from Suc.prems(1) le obtain blockInfo where
      g1: "getBlock client (1 + 2 * n) (latestBlock - int n) False = Inr blockInfo"
      and g2: "getBlock client (2 + 2 * n) (latestBlock - int n) True = Inr (B n)"
      by auto
    from g1 g2 l have "statsStep client latestBlock n s
      = s\<lparr>totalTransactions := totalTransactions s + length (blk_transactions (B n)),
          uniqueAddresses := addAddresses (blk_transactions (B n)) (uniqueAddresses s),
          statEffects := statEffects s @
            [GetBlock (latestBlock - int n) False, GetBlock (latestBlock - int n) True]\<rparr>"
      by (intro statsStep_success [where blockInfo = blockInfo]) simp_all
    with t l le show ?thesis
      by (simp add: s_def [symmetric])
  qed
qed

lemma chainStatistics_effects:
  assumes "getBlockNumber client 0 = Inr latestBlock"
  shows "blockRequests False (snd (chainStatistics client blocks))
       = map (\<lambda>k. latestBlock - int k) [0..<nat \<lceil>min blocks 10\<rceil>]"
proof -
  define st where "st = foldl (\<lambda>s k. statsStep client latestBlock k s) statsStart
      [0..<nat \<lceil>min blocks 10\<rceil>]"
  from statsFold_keeps [of statsStart client latestBlock 0 "nat \<lceil>min blocks 10\<rceil>"]
  have "blockRequests False (statEffects st)
      = map (\<lambda>k. latestBlock - int k) [0..<nat \<lceil>min blocks 10\<rceil>]"
    by (simp add: st_def statsStart_def)
  with assms show ?thesis
    by (simp add: chainStatistics_def statsLoop_fold st_def [symmetric] Let_def
        blockRequests_append split: sum.splits)
qed

section \<open>Floating-point quotients and their two decimals\<close>

lemma pow2_powi: "pow2 e = 2 powi e"
  by (simp add: pow2_def power_int_def inverse_eq_divide power_one_over)

lemma pow2_pos: "0 < pow2 e"
  by (simp add: pow2_powi)

lemma pow2_add: "pow2 (a + b) = pow2 a * pow2 b"
  by (simp add: pow2_powi power_int_add)

lemma pow2_nat: "pow2 (int n) = 2 ^ n"
  by (simp add: pow2_def)

lemma pow2_minus: "pow2 (- e) = 1 / pow2 e"
  by (simp add: pow2_powi power_int_minus_divide)

lemma pow2_less_Suc: "pow2 e < pow2 (e + 1)"
proof -
  have "pow2 1 = 2" by (simp add: pow2_def)
  then have "pow2 (e + 1) = pow2 e * 2" by (simp only: pow2_add)
  with pow2_pos [of e] show ?thesis by linarith
qed

lemma of_nat_pow2_le: "2 ^ k \<le> n \<Longrightarrow> (2::rat) ^ k \<le> of_nat n"
  by (metis of_nat_le_iff of_nat_numeral of_nat_power)

lemma of_nat_less_pow2: "n < 2 ^ k \<Longrightarrow> (of_nat n + 1 :: rat) \<le> 2 ^ k"
proof -
  assume "n < 2 ^ k"
  then have "n + 1 \<le> 2 ^ k" by simp
  then have "(of_nat (n + 1) :: rat) \<le> of_nat (2 ^ k)" by (simp only: of_nat_le_iff)
  then show ?thesis by simp
qed

lemma bitLength_bounds:
  "0 < n \<Longrightarrow> 2 ^ (bitLength n - 1) \<le> n \<and> n < 2 ^ bitLength n"
proof (induction n rule: bitLength.induct)
  case (1 n)
  show ?case
  proof (cases "n div 2 = 0")
    case True
    with "1.prems" have "n = 1" by presburger
    then show ?thesis by (simp add: bitLength.simps)
  next
    case False
    then have pos: "0 < n div 2" by simp
    from "1.prems" have n0: "n \<noteq> 0" by simp
    from "1.IH" [OF n0 pos] have lo: "2 ^ (bitLength (n div 2) - 1) \<le> n div 2"
      and hi: "n div 2 < 2 ^ bitLength (n div 2)"
      by simp_all
    have b: "bitLength n = Suc (bitLength (n div 2))"
      using n0 by (subst bitLength.simps) simp
    have bp: "0 < bitLength (n div 2)"
      using pos by (subst bitLength.simps) simp
    from lo have "2 * 2 ^ (bitLength (n div 2) - 1) \<le> n" by presburger
    moreover from bp have "(2::nat) * 2 ^ (bitLength (n div 2) - 1) = 2 ^ bitLength (n div 2)"
      by (cases "bitLength (n div 2)") simp_all
    moreover from hi have "n < 2 * 2 ^ bitLength (n div 2)" by presburger
    ultimately show ?thesis by (simp add: b)
  qed
qed

lemma exponentOf_bounds:
  assumes "0 < q"
  shows "pow2 (exponentOf q) \<le> q \<and> q < pow2 (exponentOf q + 1)"
proof (cases "1 \<le> q")
  case True
  define n where "n = nat \<lfloor>q\<rfloor>"
  from True have "1 \<le> \<lfloor>q\<rfloor>" by simp
  then have n0: "0 < n" and nf: "of_nat n = (of_int \<lfloor>q\<rfloor> :: rat)"
    by (simp_all add: n_def)
  have nlo: "of_nat n \<le> q" and nhi: "q < of_nat n + 1"
    unfolding nf by linarith+
  from bitLength_bounds [OF n0] have lo: "2 ^ (bitLength n - 1) \<le> n"
    and hi: "n < 2 ^ bitLength n" by simp_all
  from n0 have bp: "0 < bitLength n" by (subst bitLength.simps) simp
  then have e: "exponentOf q = int (bitLength n - 1)"
    and e1: "exponentOf q + 1 = int (bitLength n)"
    using True by (simp_all add: exponentOf_def n_def of_nat_diff)
  from of_nat_pow2_le [OF lo] nlo have "(2::rat) ^ (bitLength n - 1) \<le> q"
    by (rule order_trans)
  then have l: "pow2 (exponentOf q) \<le> q" by (simp only: e pow2_nat)
  from nhi of_nat_less_pow2 [OF hi] have "q < 2 ^ bitLength n"
    by (rule less_le_trans)
  then have "q < pow2 (exponentOf q + 1)" by (simp only: e1 pow2_nat)
  with l show ?thesis by simp
next
  case False
  define p where "p = 1 / q"
  define n where "n = nat \<lfloor>p\<rfloor>"
  define k where "k = int (bitLength n) - 1"
  from False assms have p1: "1 < p" by (simp add: p_def)
  then have "1 \<le> \<lfloor>p\<rfloor>" by simp
  then have n0: "0 < n" and nf: "of_nat n = (of_int \<lfloor>p\<rfloor> :: rat)"
    by (simp_all add: n_def)
  have nlo: "of_nat n \<le> p" and nhi: "p < of_nat n + 1"
    unfolding nf by linarith+
  from bitLength_bounds [OF n0] have lo: "2 ^ (bitLength n - 1) \<le> n"
    and hi: "n < 2 ^ bitLength n" by simp_all
  from n0 have bp: "0 < bitLength n" by (subst bitLength.simps) simp
  then have k: "k = int (bitLength n - 1)" "k + 1 = int (bitLength n)"
    by (simp_all add: k_def)
  have q: "q = 1 / p" by (simp add: p_def)
  from of_nat_pow2_le [OF lo] nlo have "(2::rat) ^ (bitLength n - 1) \<le> p"
    by (rule order_trans)
  then have plo: "pow2 k \<le> p" by (simp only: k(1) pow2_nat)
  from nhi of_nat_less_pow2 [OF hi] have "p < 2 ^ bitLength n"
    by (rule less_le_trans)
  then have phi: "p < pow2 (k + 1)" by (simp only: k(2) pow2_nat)
  from plo pow2_pos [of k] have "1 / p \<le> 1 / pow2 k"
    by (intro divide_left_mono) (simp_all add: less_le_trans [OF pow2_pos plo])
  then have qhi: "q \<le> pow2 (- k)" by (simp only: q pow2_minus)
  from phi p1 have "1 / pow2 (k + 1) < 1 / p"
    by (intro divide_strict_left_mono) (simp_all add: pow2_pos)
  then have "pow2 (- (k + 1)) < q" by (simp only: q pow2_minus)
  then have qlo: "pow2 (- k - 1) < q" by simp
  show ?thesis
  proof (cases "pow2 (- k) \<le> q")
    case True
    with False have e: "exponentOf q = - k"
      by (simp add: exponentOf_def Let_def p_def n_def k_def)
    from qhi pow2_less_Suc [of "- k"] have "q < pow2 (- k + 1)" by (rule le_less_trans)
    with True show ?thesis by (simp add: e)
  next
    case no: False
    with False have e: "exponentOf q = - k - 1"
      by (simp add: exponentOf_def Let_def p_def n_def k_def)
    from no have "q < pow2 (- k)" by simp
    with qlo show ?thesis by (simp add: e less_imp_le)
  qed
qed

lemma roundHalfEven_error: "\<bar>of_int (roundHalfEven x) - x\<bar> \<le> (1 / 2 :: rat)"
proof -
  define f where "f = \<lfloor>x\<rfloor>"
  have b: "of_int f \<le> x" "x < of_int f + 1"
    unfolding f_def by linarith+
  have r: "roundHalfEven x =
      (if x - of_int f < 1 / 2 then f
       else if 1 / 2 < x - of_int f then f + 1
       else if even f then f else f + 1)"
    by (simp add: roundHalfEven_def Let_def f_def)
  show ?thesis
    unfolding r using b by (auto simp: abs_if)
qed

lemma roundToDouble_error:
  assumes "0 < q" and "q < 2 ^ 45"
  shows "\<exists>r. roundToDouble q = Finite r \<and> \<bar>r - q\<bar> < 1 / 256"
proof -
  define u where "u = pow2 (max (exponentOf q - 52) (- 1074))"
  define r where "r = of_int (roundHalfEven (q / u)) * u"
  have u0: "0 < u" by (simp add: u_def pow2_pos)
  have "u < 1 / 128"
  proof (cases "- 1074 \<le> exponentOf q - 52")
    case True
    then have "max (exponentOf q - 52) (- 1074) = exponentOf q - 52"
      by (rule max_absorb1)
    then have u1: "u = pow2 (exponentOf q - 52)"
      by (simp only: u_def)
    have "pow2 (exponentOf q - 52) = pow2 (exponentOf q) * pow2 (- 52)"
      using pow2_add [of "exponentOf q" "- 52"] by simp
    moreover have "pow2 (- 52) = 1 / 2 ^ 52"
      by (simp add: pow2_def)
    ultimately have "u = pow2 (exponentOf q) / 2 ^ 52"
      using u1 by simp
    also from exponentOf_bounds [OF assms(1)] have "\<dots> \<le> q / 2 ^ 52"
      by (simp add: divide_right_mono)
    also from assms(2) have "\<dots> < 2 ^ 45 / 2 ^ 52"
      by (simp add: divide_strict_right_mono)
    finally show ?thesis by simp
  next
    case False
    then have "exponentOf q - 52 \<le> - 1074" by simp
    then have "max (exponentOf q - 52) (- 1074) = - 1074"
      by (rule max_absorb2)
    then have "u = pow2 (- 1074)" by (simp only: u_def)
    also have "\<dots> = 1 / 2 ^ 1074" by (simp add: pow2_def)
    also have "\<dots> < 1 / 2 ^ 7"
      by (intro divide_strict_left_mono power_strict_increasing) simp_all
    finally show ?thesis by simp
  qed
  from roundHalfEven_error [of "q / u"]
  have "\<bar>of_int (roundHalfEven (q / u)) - q / u\<bar> * u \<le> 1 / 2 * u"
    using u0 by (intro mult_right_mono) simp_all
  also have "\<bar>of_int (roundHalfEven (q / u)) - q / u\<bar> * u = \<bar>r - q\<bar>"
    using u0 by (simp add: r_def abs_mult [symmetric, of _ u, unfolded abs_of_pos [OF u0]]
        left_diff_distrib)
  finally have e: "\<bar>r - q\<bar> \<le> u / 2" by simp
  with \<open>u < 1 / 128\<close> have s: "\<bar>r - q\<bar> < 1 / 256" by linarith
  then have "r < q + 1 / 256" unfolding abs_less_iff by linarith
  with assms(2) have "r < 2 ^ 45 + 1" by linarith
  also have "\<dots> < (2::rat) ^ 1024"
  proof -
    have "(2::rat) ^ 45 + 1 < 2 ^ 46" by simp
    also have "\<dots> < 2 ^ 1024" by (intro power_strict_increasing) simp_all
    finally show ?thesis .
  qed
  finally have "\<not> 2 ^ 1024 \<le> r" by simp
  with assms(1) have "roundToDouble q = Finite r"
    by (simp add: roundToDouble_def Let_def u_def r_def)
  with s show ?thesis by blast
qed

lemma digitVal_hexDigit_10: "d < 10 \<Longrightarrow> isDigitOf 10 (hexDigit d) \<and> hexDigit d \<noteq> CHR ''.''"
proof -
  have "list_all (\<lambda>d. isDigitOf 10 (hexDigit d) \<and> hexDigit d \<noteq> CHR ''.'') [0..<10]"
    by code_simp
  then show "d < 10 \<Longrightarrow> isDigitOf 10 (hexDigit d) \<and> hexDigit d \<noteq> CHR ''.''"
    by (simp only: list_all_iff set_upt atLeastLessThan_iff) simp
qed

lemma toDecimal_digits: "list_all (\<lambda>c. isDigitOf 10 c \<and> c \<noteq> CHR ''.'') (toDecimal n)"
proof (induction n rule: toDecimal.induct)
  case (1 n)
  show ?case
  proof (cases "n < 10")
    case True
    then show ?thesis
      by (subst toDecimal.simps) (simp add: digitVal_hexDigit_10)
  next
    case False
    with 1 have "list_all (\<lambda>c. isDigitOf 10 c \<and> c \<noteq> CHR ''.'') (toDecimal (n div 10))" by simp
    with False show ?thesis
      by (subst toDecimal.simps) (simp add: digitVal_hexDigit_10)
  qed
qed

lemma digitsValue_toDecimal: "digitsValue 10 (toDecimal n) = n"
proof (induction n rule: toDecimal.induct)
  case (1 n)
  show ?case
  proof (cases "n < 10")
    case True
    then show ?thesis
      by (subst toDecimal.simps) (simp add: digitsValue_def digitVal_hexDigit)
  next
    case False
    with 1 have "digitsValue 10 (toDecimal (n div 10)) = n div 10" by simp
    with False show ?thesis
      by (subst toDecimal.simps) (simp add: digitsValue_snoc digitVal_hexDigit)
  qed
qed

lemma toFixed2_value:
  assumes "0 \<le> v" and "v < 10 ^ 21"
  shows "\<exists>d. toFixed2 (Finite v) = Digits d
           \<and> decimalValue d = of_nat (nat \<lfloor>v * 100 + 1 / 2\<rfloor>) / 100"
proof -
  define n where "n = nat \<lfloor>v * 100 + 1 / 2\<rfloor>"
  define m where "m = padStart 3 CHR ''0'' (toDecimal n)"
  define a where "a = take (length m - 2) m"
  define b where "b = drop (length m - 2) m"
  have len: "3 \<le> length m" by (simp add: m_def length_padStart)
  then have lb: "length b = 2" by (simp add: b_def)
  have ab: "a @ b = m" by (simp add: a_def b_def)
  have nodot: "CHR ''.'' \<notin> set m"
    using toDecimal_digits [of n] by (auto simp: m_def padStart_def list_all_iff)
  then have na: "CHR ''.'' \<notin> set a"
    by (auto simp: a_def dest: in_set_takeD)
  have val: "digitsValue 10 m = n"
    by (simp add: m_def digitsValue_padStart digitsValue_toDecimal)
  from ab lb val have split: "digitsValue 10 a * 100 + digitsValue 10 b = n"
    using digitsValue_append [of 10 a b] by simp
  from na have tw: "takeWhile (\<lambda>c. c \<noteq> CHR ''.'') (a @ CHR ''.'' # b) = a"
    by (subst takeWhile_append2) auto
  from na have dw: "dropWhile (\<lambda>c. c \<noteq> CHR ''.'') (a @ CHR ''.'' # b) = CHR ''.'' # b"
    by (subst dropWhile_append2) auto
  have "decimalValue (a @ ''.'' @ b)
      = of_nat (digitsValue 10 a) + of_nat (digitsValue 10 b) / 100"
    by (simp add: decimalValue_def Let_def tw dw lb)
  also have "\<dots> = of_nat (digitsValue 10 a * 100 + digitsValue 10 b) / 100"
    by simp
  finally have dv: "decimalValue (a @ ''.'' @ b) = of_nat n / 100"
    by (simp only: split)
  from assms have "toFixed2 (Finite v) = Digits (a @ ''.'' @ b)"
    by (simp add: toFixed2_def Let_def n_def m_def a_def b_def)
  with dv show ?thesis by (simp add: n_def)
qed

lemma toFixed2_zero: "\<exists>d. toFixed2 (Finite 0) = Digits d \<and> decimalValue d = 0"
proof -
  have z: "nat \<lfloor>(0::rat) * 100 + 1 / 2\<rfloor> = 0" by simp
  have "(0::rat) \<le> 0" "(0::rat) < 10 ^ 21" by simp_all
  from toFixed2_value [OF this] obtain d where "toFixed2 (Finite 0) = Digits d"
    "decimalValue d = of_nat (nat \<lfloor>(0::rat) * 100 + 1 / 2\<rfloor>) / 100"
    by blast
  then show ?thesis by (simp only: z) simp
qed

lemma average_of_five:
  assumes "t < 2 ^ 45"
  shows "\<exists>d. toFixed2 (jsDivide t 5) = Digits d \<and> decimalValue d = of_nat t / 5"
proof (cases "t = 0")
  case True
  have "jsDivide 0 5 = Finite 0"
    by (simp add: jsDivide_def roundToDouble_def)
  with toFixed2_zero True show ?thesis by simp
next
  case False
  define n :: rat where "n = of_nat t"
  define q :: rat where "q = n / 5"
  from False have "1 \<le> t" by simp
  then have "(of_nat 1 :: rat) \<le> of_nat t" by (simp only: of_nat_le_iff)
  then have t1: "1 \<le> n" by (simp add: n_def)
  from assms have "(of_nat t :: rat) < of_nat (2 ^ 45)" by (simp only: of_nat_less_iff)
  then have t2: "n < 2 ^ 45" unfolding n_def by simp
  from t1 have q0: "0 < q" and q5: "1 / 5 \<le> q" by (simp_all add: q_def)
  from t1 have "q \<le> n" by (simp add: q_def)
  from this t2 have q1: "q < 2 ^ 45" by (rule le_less_trans)
  from roundToDouble_error [OF q0 q1] obtain r where
    r: "roundToDouble q = Finite r" and e: "\<bar>r - q\<bar> < 1 / 256"
    by blast
  from e [unfolded abs_less_iff] have rl: "q - 1 / 256 < r" and rh: "r < q + 1 / 256"
    by linarith+
  from q5 rl have r0: "0 \<le> r" by linarith
  have big: "(2::rat) ^ 45 + 1 < 10 ^ 21" by simp
  from rh q1 have "r < 2 ^ 45 + 1" by linarith
  with big have r1: "r < 10 ^ 21" by (rule less_trans [rotated])
  have h: "q * 100 = n * 20" by (simp add: q_def)
  from rl rh h have "n * 20 \<le> r * 100 + 1 / 2" and "r * 100 + 1 / 2 < n * 20 + 1"
    by linarith+
  moreover have "n * 20 = of_int (int (20 * t))" by (simp add: n_def)
  ultimately have "\<lfloor>r * 100 + 1 / 2\<rfloor> = int (20 * t)"
    by (intro floor_unique) simp_all
  then have k: "nat \<lfloor>r * 100 + 1 / 2\<rfloor> = 20 * t" by simp
  from toFixed2_value [OF r0 r1] obtain d where d: "toFixed2 (Finite r) = Digits d"
    "decimalValue d = of_nat (nat \<lfloor>r * 100 + 1 / 2\<rfloor>) / 100"
    by blast
  have j: "jsDivide t 5 = Finite r"
    using r by (simp add: jsDivide_def q_def n_def)
  from d(2) have "decimalValue d = of_nat (20 * t) / 100"
    by (simp only: k)
  then have "decimalValue d = of_nat t / 5" by simp
  with d(1) j show ?thesis by simp
qed

subsection \<open>The example chain\<close>

lemma exampleChain_statistics_3:
  "chainStatistics exampleChain 3 =
    (StatsReport
      \<lparr>sr_chainId = 10143, sr_latestBlock = 100, sr_gasPrice = 52000000000,
         sr_blocks = 3, sr_totalTransactions = 4, sr_uniqueAddresses = 3,
         sr_averageTransactionsPerBlock = Digits ''1.33''\<rparr>,
     [GetBlockNumber, GetBlock 100 False, GetBlock 100 True,
      GetBlock 99 False, ConsoleError ''block not found'',
      GetBlock 98 False, GetBlock 98 True, GetChainId, GetGasPrice])"
  by code_simp

lemma exampleChain_statistics_20:
  "chainStatistics exampleChain 20 =
    (StatsReport
      \<lparr>sr_chainId = 10143, sr_latestBlock = 100, sr_gasPrice = 52000000000,
         sr_blocks = 20, sr_totalTransactions = 4, sr_uniqueAddresses = 3,
         sr_averageTransactionsPerBlock = Digits ''0.20''\<rparr>,
     [GetBlockNumber, GetBlock 100 False, GetBlock 100 True,
      GetBlock 99 False, ConsoleError ''block not found'',
      GetBlock 98 False, GetBlock 98 True, GetBlock 97 False,
      GetBlock 97 True, GetBlock 96 False, GetBlock 96 True,
      GetBlock 95 False, GetBlock 95 True, GetBlock 94 False,
      GetBlock 94 True, GetBlock 93 False, GetBlock 93 True,
      GetBlock 92 False, GetBlock 92 True, GetBlock 91 False,
      GetBlock 91 True, GetChainId, GetGasPrice])"
  by code_simp

lemma exampleChain_statistics_5_effects:
  "snd (chainStatistics exampleChain 5) =
     [GetBlockNumber, GetBlock 100 False, GetBlock 100 True,
      GetBlock 99 False, ConsoleError ''block not found'',
      GetBlock 98 False, GetBlock 98 True, GetBlock 97 False,
      GetBlock 97 True, GetBlock 96 False, GetBlock 96 True, GetChainId,
      GetGasPrice]"
  by code_simp

lemma quotients_of_four:
  "toFixed2 (jsDivide 4 10) = Digits ''0.40''"
  "toFixed2 (jsDivide 4 9) = Digits ''0.44''"
  by code_simp+

lemma decimalValue_1_33: "decimalValue ''1.33'' = 133 / 100"
  by (simp add: decimalValue_def digitsValue_def digitVal_def)

subsection \<open>The divisor of the average\<close>

text \<open>
  Claim C7, as amended. In every report of the statistics tool the average is what the
  host prints, with two decimals, for the floating-point quotient of the total number of
  transactions by the requested number of blocks: the divisor is the input \<open>blocks\<close>,
  while the walk requests \<open>min blocks 10\<close> blocks (rounded up), at most ten, whether
  or not they can be fetched. For a quotient \<open>x\<close> from 0 up to \<open>10 ^ 21\<close> the
  printed text denotes the integer nearest to \<open>100 * x\<close>, divided by 100. For a
  request of 5 blocks and a total below \<open>2 ^ 45\<close> the printed number is the total
  divided by 5, exactly; and when all five blocks are fetched, the total is the sum of
  the numbers of their transactions.
\<close>

theorem average_uses_requested_blocks:
  assumes "chainStatistics client blocks = (StatsReport r, es)"
  shows "sr_averageTransactionsPerBlock r = toFixed2 (jsDivide (sr_totalTransactions r) blocks)
     \<and> sr_blocks r = blocks
     \<and> blockRequests False es
         = map (\<lambda>k. sr_latestBlock r - int k) [0..<nat \<lceil>min blocks 10\<rceil>]
     \<and> length (blockRequests False es) \<le> 10
     \<and> (\<forall>x. jsDivide (sr_totalTransactions r) blocks = Finite x \<and> 0 \<le> x \<and> x < 10 ^ 21 \<longrightarrow>
          (\<exists>d. sr_averageTransactionsPerBlock r = Digits d
             \<and> decimalValue d = of_nat (nat \<lfloor>x * 100 + 1 / 2\<rfloor>) / 100))
     \<and> (blocks = 5 \<longrightarrow>
          (sr_totalTransactions r < 2 ^ 45 \<longrightarrow>
             (\<exists>d. sr_averageTransactionsPerBlock r = Digits d
                \<and> decimalValue d = of_nat (sr_totalTransactions r) / 5))
          \<and> ((\<forall>k<5. (\<exists>blockInfo. getBlock client (1 + 2 * k) (sr_latestBlock r - int k) False
                                   = Inr blockInfo)
                    \<and> getBlock client (2 + 2 * k) (sr_latestBlock r - int k) True = Inr (B k))
               \<longrightarrow> sr_totalTransactions r = (\<Sum>k<5. length (blk_transactions (B k)))))"
proof -
  from assms obtain latestBlock where b: "getBlockNumber client 0 = Inr latestBlock"
    and l: "sr_latestBlock r = latestBlock"
    and t: "sr_totalTransactions r
        = totalTransactions (statsLoop client latestBlock blocks 0 statsStart)"
    and a: "sr_averageTransactionsPerBlock r
        = toFixed2 (jsDivide (sr_totalTransactions r) blocks)"
    and k: "sr_blocks r = blocks"
    by (auto simp: chainStatistics_def Let_def split: sum.splits)
  from chainStatistics_effects [OF b, of blocks] assms l
  have e: "blockRequests False es
         = map (\<lambda>k. sr_latestBlock r - int k) [0..<nat \<lceil>min blocks 10\<rceil>]"
    by simp
  have "nat \<lceil>min blocks 10\<rceil> \<le> nat \<lceil>10::rat\<rceil>"
    by (intro nat_mono ceiling_mono) simp
  with e have n: "length (blockRequests False es) \<le> 10" by simp
  have p: "\<forall>x. jsDivide (sr_totalTransactions r) blocks = Finite x \<and> 0 \<le> x \<and> x < 10 ^ 21 \<longrightarrow>
          (\<exists>d. sr_averageTransactionsPerBlock r = Digits d
             \<and> decimalValue d = of_nat (nat \<lfloor>x * 100 + 1 / 2\<rfloor>) / 100)"
    using toFixed2_value by (simp add: a)
  have five: "\<exists>d. sr_averageTransactionsPerBlock r = Digits d
                \<and> decimalValue d = of_nat (sr_totalTransactions r) / 5"
    if "blocks = 5" and "sr_totalTransactions r < 2 ^ 45"
    using average_of_five [OF that(2)] that(1) by (simp add: a)
  have sum: "sr_totalTransactions r = (\<Sum>k<5. length (blk_transactions (B k)))"
    if "blocks = 5"
      and "\<forall>k<5. (\<exists>blockInfo. getBlock client (1 + 2 * k) (sr_latestBlock r - int k) False
                                   = Inr blockInfo)
                    \<and> getBlock client (2 + 2 * k) (sr_latestBlock r - int k) True = Inr (B k)"
  proof -
    from that(1) have c: "nat \<lceil>min blocks 10\<rceil> = 5" by simp
    from that(2) l have "\<forall>k. 0 \<le> k \<and> k < 5 \<longrightarrow>
      (\<exists>blockInfo. getBlock client (1 + 2 * k) (latestBlock - int k) False = Inr blockInfo)
      \<and> getBlock client (2 + 2 * k) (latestBlock - int k) True = Inr (B k)"
      by simp
    from statsFold_all_succeed [OF this, of statsStart]
    have "totalTransactions (foldl (\<lambda>s k. statsStep client latestBlock k s) statsStart [0..<5])
       = (\<Sum>k = 0..<5. length (blk_transactions (B k)))"
      by (simp add: statsStart_def)
    with t c show ?thesis
      by (simp add: statsLoop_fold atLeast0LessThan)
  qed
  from a k e n p five sum show ?thesis
    by blast
qed

text \<open>
  On the example chain a request for 20 blocks walks ten blocks, fetches nine of them
  and finds four transactions; the report prints \<open>0.20\<close>, the quotient by 20, where
  the quotients by 10 and by 9 would print \<open>0.40\<close> and \<open>0.44\<close>.
\<close>

theorem average_uses_requested_blocks_witness:
  "chainStatistics exampleChain 20 =
    (StatsReport
      \<lparr>sr_chainId = 10143, sr_latestBlock = 100, sr_gasPrice = 52000000000,
         sr_blocks = 20, sr_totalTransactions = 4, sr_uniqueAddresses = 3,
         sr_averageTransactionsPerBlock = Digits ''0.20''\<rparr>,
     [GetBlockNumber, GetBlock 100 False, GetBlock 100 True,
      GetBlock 99 False, ConsoleError ''block not found'',
      GetBlock 98 False, GetBlock 98 True, GetBlock 97 False,
      GetBlock 97 True, GetBlock 96 False, GetBlock 96 True,
      GetBlock 95 False, GetBlock 95 True, GetBlock 94 False,
      GetBlock 94 True, GetBlock 93 False, GetBlock 93 True,
      GetBlock 92 False, GetBlock 92 True, GetBlock 91 False,
      GetBlock 91 True, GetChainId, GetGasPrice])
   \<and> toFixed2 (jsDivide 4 20) = Digits ''0.20''
   \<and> toFixed2 (jsDivide 4 10) = Digits ''0.40''
   \<and> toFixed2 (jsDivide 4 9) = Digits ''0.44''"
proof -
  from average_uses_requested_blocks [OF exampleChain_statistics_20]
  have "Digits ''0.20'' = toFixed2 (jsDivide 4 20)" by simp
  then show ?thesis
    using exampleChain_statistics_20 quotients_of_four by simp
qed

text \<open>
  Claim C7 as stated, an exact quotient for every request, fails: on the example chain
  a request for 3 blocks finds four transactions and the report prints \<open>1.33\<close>,
  which is not \<open>4 / 3\<close>.
\<close>

theorem average_exact_counterexample:
  "chainStatistics exampleChain 3 =
    (StatsReport
      \<lparr>sr_chainId = 10143, sr_latestBlock = 100, sr_gasPrice = 52000000000,
         sr_blocks = 3, sr_totalTransactions = 4, sr_uniqueAddresses = 3,
         sr_averageTransactionsPerBlock = Digits ''1.33''\<rparr>,
     [GetBlockNumber, GetBlock 100 False, GetBlock 100 True,
      GetBlock 99 False, ConsoleError ''block not found'',
      GetBlock 98 False, GetBlock 98 True, GetChainId, GetGasPrice])
   \<and> decimalValue ''1.33'' = 133 / 100
   \<and> (133 / 100 :: rat) \<noteq> 4 / 3"
  by (simp add: exampleChain_statistics_3 decimalValue_1_33)

subsection \<open>Failures inside the walk\<close>

text \<open>
  Claim C8. In the history tool a block that cannot be fetched is written to the error
  console and the walk goes on with the block below, the state otherwise unchanged; a
  receipt that cannot be fetched ends the work on its block in the same way, and the
  records found before it stay. A round of the loop never drops a record and always moves
  to the block below. When the nonce and the head are answered the tool returns a report,
  whichever later requests fail: the call is \<open>n\<close> rounds of the loop body from the
  start state, it ends only after the tenth round or with the limit reached, never
  because a request failed, and the blocks it requested are the \<open>n\<close> blocks from the
  head downwards. In the statistics tool a failure of either request for a block is
  written to the error console and leaves the counters as they were; a round never lowers
  the total or removes an address; every block of the window is requested, whichever
  requests fail; and the tool returns a report whenever the head, the chain id and the gas
  price are answered.
\<close>

theorem fetch_failures_do_not_abort:
  "(getBlock client (length (effects st)) (currentBlock st) True = Inl e \<longrightarrow>
      historyStep client fa limit st
        = st\<lparr>effects := effects st @ [GetBlock (currentBlock st) True, ConsoleError e],
             currentBlock := currentBlock st - 1\<rparr>)
   \<and> (getBlock client (length (effects st)) (currentBlock st) True = Inr blk
        \<and> processTransactions client fa limit blk (blk_transactions blk)
             (st\<lparr>effects := effects st @ [GetBlock (currentBlock st) True]\<rparr>) = (Some e, st2) \<longrightarrow>
      historyStep client fa limit st
        = st2\<lparr>effects := effects st2 @ [ConsoleError e], currentBlock := currentBlock st - 1\<rparr>
      \<and> (\<exists>new. transactions st2 = transactions st @ new))
   \<and> (\<exists>new. transactions (historyStep client fa limit st) = transactions st @ new)
   \<and> currentBlock (historyStep client fa limit st) = currentBlock st - 1
   \<and> (getTransactionCount client 0 address = Inr sentTxs
        \<and> getBlockNumber client 1 = Inr latestBlock \<longrightarrow>
      (\<exists>n st. n \<le> 10
          \<and> st = (historyStep client (toLowerCase address) limit ^^ n)
                   (historyStart address latestBlock)
          \<and> accountTransactionHistory client address limit
               = (HistoryReport sentTxs (transactions st), effects st)
          \<and> (n = 10 \<or> limit \<le> of_nat (length (transactions st)))
          \<and> blockRequests True (effects st) = map (\<lambda>k. latestBlock - int k) [0..<n]))
   \<and> (getBlock client (length (statEffects ss)) (latestBlock - int i) False = Inl e \<longrightarrow>
      statsStep client latestBlock i ss
        = ss\<lparr>statEffects := statEffects ss
                @ [GetBlock (latestBlock - int i) False, ConsoleError e]\<rparr>)
   \<and> (getBlock client (length (statEffects ss)) (latestBlock - int i) False = Inr blockInfo
        \<and> getBlock client (Suc (length (statEffects ss))) (latestBlock - int i) True = Inl e \<longrightarrow>
      statsStep client latestBlock i ss
        = ss\<lparr>statEffects := statEffects ss
                @ [GetBlock (latestBlock - int i) False, GetBlock (latestBlock - int i) True,
                   ConsoleError e]\<rparr>)
   \<and> totalTransactions ss \<le> totalTransactions (statsStep client latestBlock i ss)
   \<and> uniqueAddresses ss \<subseteq> uniqueAddresses (statsStep client latestBlock i ss)
   \<and> (getBlockNumber client 0 = Inr latestBlock \<longrightarrow>
        blockRequests False (snd (chainStatistics client blocks))
          = map (\<lambda>k. latestBlock - int k) [0..<nat \<lceil>min blocks 10\<rceil>]
        \<and> ((\<forall>t. \<exists>chainId. getChainId client t = Inr chainId)
             \<and> (\<forall>t. \<exists>gasPrice. getGasPrice client t = Inr gasPrice) \<longrightarrow>
            (\<exists>r. fst (chainStatistics client blocks) = StatsReport r)))"
proof (intro conjI impI)
  assume "getBlock client (length (effects st)) (currentBlock st) True = Inl e"
  then show "historyStep client fa limit st
        = st\<lparr>effects := effects st @ [GetBlock (currentBlock st) True, ConsoleError e],
             currentBlock := currentBlock st - 1\<rparr>"
    by (rule historyStep_block_failure)
next
  assume a: "getBlock client (length (effects st)) (currentBlock st) True = Inr blk
        \<and> processTransactions client fa limit blk (blk_transactions blk)
             (st\<lparr>effects := effects st @ [GetBlock (currentBlock st) True]\<rparr>) = (Some e, st2)"
  then show "historyStep client fa limit st
        = st2\<lparr>effects := effects st2 @ [ConsoleError e], currentBlock := currentBlock st - 1\<rparr>"
    by (intro historyStep_receipt_failure [where blk = blk]) simp_all
  from processTransactions_extends [of client fa limit blk "blk_transactions blk"
      "st\<lparr>effects := effects st @ [GetBlock (currentBlock st) True]\<rparr>" True] a
  show "\<exists>new. transactions st2 = transactions st @ new" by auto
next
  from historyStep_extends [of client fa limit st True]
  show "\<exists>new. transactions (historyStep client fa limit st) = transactions st @ new"
    and "currentBlock (historyStep client fa limit st) = currentBlock st - 1"
    by blast+
next
  assume a: "getTransactionCount client 0 address = Inr sentTxs
        \<and> getBlockNumber client 1 = Inr latestBlock"
  define st0 where "st0 = historyStart address latestBlock"
  define fa' where "fa' = toLowerCase address"
  from historyLoop_iterates [where i = 0 and client = client and fa = fa' and limit = limit
      and st = st0]
  obtain n where n: "n \<le> 10"
    "historyLoop client fa' limit 0 st0 = (n, (historyStep client fa' limit ^^ n) st0)"
    "n = 10 \<or> limit \<le> of_nat (length (transactions ((historyStep client fa' limit ^^ n) st0)))"
    by (auto simp: blocksToSearch_def)
  define sn where "sn = (historyStep client fa' limit ^^ n) st0"
  from historySteps_facts [where client = client and fa = fa' and limit = limit
      and n = n and st = st0 and f = True]
  have b: "blockRequests True (effects sn) = map (\<lambda>k. latestBlock - int k) [0..<n]"
    by (simp add: sn_def st0_def historyStart_def)
  from a n(2) have r: "accountTransactionHistory client address limit
      = (HistoryReport sentTxs (transactions sn), effects sn)"
    by (simp add: accountTransactionHistory_def Let_def sn_def st0_def fa'_def)
  from n(1,3) r b
  show "\<exists>n st. n \<le> 10
          \<and> st = (historyStep client (toLowerCase address) limit ^^ n)
                   (historyStart address latestBlock)
          \<and> accountTransactionHistory client address limit
               = (HistoryReport sentTxs (transactions st), effects st)
          \<and> (n = 10 \<or> limit \<le> of_nat (length (transactions st)))
          \<and> blockRequests True (effects st) = map (\<lambda>k. latestBlock - int k) [0..<n]"
    unfolding sn_def st0_def fa'_def by blast
next
  assume "getBlock client (length (statEffects ss)) (latestBlock - int i) False = Inl e"
  then show "statsStep client latestBlock i ss
        = ss\<lparr>statEffects := statEffects ss
                @ [GetBlock (latestBlock - int i) False, ConsoleError e]\<rparr>"
    by (rule statsStep_first_failure)
next
  assume "getBlock client (length (statEffects ss)) (latestBlock - int i) False = Inr blockInfo
        \<and> getBlock client (Suc (length (statEffects ss))) (latestBlock - int i) True = Inl e"
  then show "statsStep client latestBlock i ss
        = ss\<lparr>statEffects := statEffects ss
                @ [GetBlock (latestBlock - int i) False, GetBlock (latestBlock - int i) True,
                   ConsoleError e]\<rparr>"
    by (intro statsStep_second_failure [where blockInfo = blockInfo]) simp_all
next
  from statsStep_keeps [of ss client latestBlock i]
  show "totalTransactions ss \<le> totalTransactions (statsStep client latestBlock i ss)"
    and "uniqueAddresses ss \<subseteq> uniqueAddresses (statsStep client latestBlock i ss)"
    by blast+
next
  assume "getBlockNumber client 0 = Inr latestBlock"
  then show "blockRequests False (snd (chainStatistics client blocks))
          = map (\<lambda>k. latestBlock - int k) [0..<nat \<lceil>min blocks 10\<rceil>]"
    by (rule chainStatistics_effects)
next
  assume b: "getBlockNumber client 0 = Inr latestBlock"
  assume "(\<forall>t. \<exists>chainId. getChainId client t = Inr chainId)
             \<and> (\<forall>t. \<exists>gasPrice. getGasPrice client t = Inr gasPrice)"
  then have c: "\<And>t. \<exists>chainId. getChainId client t = Inr chainId"
    and g: "\<And>t. \<exists>gasPrice. getGasPrice client t = Inr gasPrice"
    by blast+
  define t where "t = length (statEffects (statsLoop client latestBlock blocks 0 statsStart))"
  from c [of t] g [of "Suc t"] obtain chainId gasPrice where
    "getChainId client t = Inr chainId" "getGasPrice client (Suc t) = Inr gasPrice"
    by blast
  with b show "\<exists>r. fst (chainStatistics client blocks) = StatsReport r"
    by (simp add: chainStatistics_def Let_def t_def)
qed

text \<open>
  On the example chain block 99 and the receipt of \<open>0xc\<close> cannot be fetched: the
  history tool reports the two records of block 100 and walks on to block 91, and the
  statistics tool requests all five blocks of its window.
\<close>

theorem fetch_failures_do_not_abort_witness:
  "getBlock exampleChain 5 99 True = Inl ''block not found''
   \<and> getTransactionReceipt exampleChain 8 ''0xc'' = Inl ''receipt not found''
   \<and> accountTransactionHistory exampleChain ''0xAb'' 10 =
      (HistoryReport 7
        [\<lparr>act_hash = ''0xa'', act_blockNumber = 100, act_from = ''0xAB'',
            act_to = Some ''0xab'', act_value = 1,
            act_timestamp = 1700000000000, act_status = ''success'',
            act_gasUsed = Some 21000\<rparr>,
         \<lparr>act_hash = ''0xb'', act_blockNumber = 100, act_from = ''0xcd'',
            act_to = Some ''0xAB'', act_value = 2,
            act_timestamp = 1700000000000, act_status = ''success'',
            act_gasUsed = Some 21000\<rparr>],
       [GetTransactionCount ''0xAb'', GetBlockNumber, GetBlock 100 True,
        GetTransactionReceipt ''0xa'', GetTransactionReceipt ''0xb'',
        GetBlock 99 True, ConsoleError ''block not found'', GetBlock 98 True,
        GetTransactionReceipt ''0xc'', ConsoleError ''receipt not found'',
        GetBlock 97 True, GetBlock 96 True, GetBlock 95 True,
        GetBlock 94 True, GetBlock 93 True, GetBlock 92 True,
        GetBlock 91 True])
   \<and> blockRequests False (snd (chainStatistics exampleChain 5)) = [100, 99, 98, 97, 96]
   \<and> consoleErrors (snd (chainStatistics exampleChain 5)) = [''block not found'']
   \<and> (\<exists>r. fst (chainStatistics exampleChain 5) = StatsReport r)"
proof -
  have b: "getBlockNumber exampleChain 0 = Inr 100"
    and c: "\<forall>t. \<exists>chainId. getChainId exampleChain t = Inr chainId"
    and g: "\<forall>t. \<exists>gasPrice. getGasPrice exampleChain t = Inr gasPrice"
    by (simp_all add: exampleChain_def)
  from fetch_failures_do_not_abort [where client = exampleChain and latestBlock = 100
      and blocks = 5] b c g
  have "blockRequests False (snd (chainStatistics exampleChain 5))
          = map (\<lambda>k. 100 - int k) [0..<nat \<lceil>min (5::rat) 10\<rceil>]"
    and r: "\<exists>r. fst (chainStatistics exampleChain 5) = StatsReport r"
    by blast+
  then have "blockRequests False (snd (chainStatistics exampleChain 5)) = [100, 99, 98, 97, 96]"
    by (simp add: upt_rec)
  moreover have "getBlock exampleChain 5 99 True = Inl ''block not found''"
    "getTransactionReceipt exampleChain 8 ''0xc'' = Inl ''receipt not found''"
    by (simp_all add: exampleChain_def)
  moreover have "consoleErrors (snd (chainStatistics exampleChain 5)) = [''block not found'']"
    by (simp add: exampleChain_statistics_5_effects)
  ultimately show ?thesis
    using r exampleChain_history_10 by simp
qed

section \<open>The time stamp of the details tool\<close>

text \<open>
  Claim C10. In every report of the details tool the time stamp is the reading of the
  server clock taken when the report is put together. The tool requests the transaction
  and its receipt and no block, and its answer is the same whatever the blocks of the
  chain are, so the time of the block plays no part. A call with another clock reading
  returns the same report with the other time stamp: all other fields agree, and the
  time stamps differ.
\<close>

theorem details_timestamp_is_clock:
  assumes "transactionDetails client now hash = (DetailsReport r, es)"
  shows "dr_timestamp r = now
     \<and> es = [GetTransaction hash, GetTransactionReceipt hash]
     \<and> transactionDetails (client\<lparr>getBlock := g\<rparr>) now hash = (DetailsReport r, es)
     \<and> transactionDetails client now' hash = (DetailsReport (r\<lparr>dr_timestamp := now'\<rparr>), es)
     \<and> (now' \<noteq> now \<longrightarrow> dr_timestamp (r\<lparr>dr_timestamp := now'\<rparr>) \<noteq> dr_timestamp r)"
  using assms
  by (auto simp: transactionDetails_def split: sum.splits)

text \<open>Two calls for the transaction \<open>0xa\<close> on the example chain, one minute apart.\<close>

theorem details_timestamp_is_clock_witness:
  "transactionDetails exampleChain 1745900000000 ''0xa'' =
     (DetailsReport \<lparr>dr_status = ''Success'', dr_blockNumber = 100, dr_from = ''0xAB'',
        dr_to = ''0xab'', dr_value = 1, dr_gasUsed = Some 21000, dr_gasPrice = 50,
        dr_timestamp = 1745900000000\<rparr>,
      [GetTransaction ''0xa'', GetTransactionReceipt ''0xa''])
   \<and> transactionDetails exampleChain 1745900060000 ''0xa'' =
     (DetailsReport \<lparr>dr_status = ''Success'', dr_blockNumber = 100, dr_from = ''0xAB'',
        dr_to = ''0xab'', dr_value = 1, dr_gasUsed = Some 21000, dr_gasPrice = 50,
        dr_timestamp = 1745900060000\<rparr>,
      [GetTransaction ''0xa'', GetTransactionReceipt ''0xa''])"
proof -
  have e: "transactionDetails exampleChain 1745900000000 ''0xa'' =
     (DetailsReport \<lparr>dr_status = ''Success'', dr_blockNumber = 100, dr_from = ''0xAB'',
        dr_to = ''0xab'', dr_value = 1, dr_gasUsed = Some 21000, dr_gasPrice = 50,
        dr_timestamp = 1745900000000\<rparr>,
      [GetTransaction ''0xa'', GetTransactionReceipt ''0xa''])"
    by code_simp
  from details_timestamp_is_clock [OF e, of _ 1745900060000] e show ?thesis by simp
qed

end
